theory Spec2Isabelle
  imports Complex_Main "HOL-Library.Char_ord" "HOL-Library.List_Lexorder"
begin

section \<open>Values of the configuration document\<close>

text \<open>
  The configuration is a YAML document loaded into plain JavaScript values: null,
  booleans, numbers, strings, lists and mappings. A number is a finite value (modelled as
  a rational), NaN, or an infinity. A mapping is the list of its own properties in the
  order in which they were created. No value of a document is \<open>undefined\<close>:
  \<open>undefined\<close> is what reading an absent property gives, and is modelled by \<open>None\<close>.
  The document is a tree (a node of the document is not shared between two places), and
  the timestamps and binary scalars of YAML are not among the values modelled.
\<close>

datatype jsval =
    JNull
  | JBool bool
  | JNum rat
  | JNaN
  | JInf bool
  | JStr string
  | JArr "jsval list"
  | JObj "(string \<times> jsval) list"

fun typeof :: "jsval \<Rightarrow> string" where
  "typeof JNull = ''object''"
| "typeof (JBool b) = ''boolean''"
| "typeof (JNum r) = ''number''"
| "typeof JNaN = ''number''"
| "typeof (JInf b) = ''number''"
| "typeof (JStr s) = ''string''"
| "typeof (JArr xs) = ''object''"
| "typeof (JObj kvs) = ''object''"

text \<open>\<open>Number.isInteger\<close>: true exactly for finite numbers without fractional part.\<close>

fun Number_isInteger :: "jsval \<Rightarrow> bool" where
  "Number_isInteger (JNum r) = (of_int \<lfloor>r\<rfloor> = r)"
| "Number_isInteger v = False"

text \<open>\<open>value < c\<close> for a value of type number (NaN compares false with everything).\<close>

fun num_less :: "jsval \<Rightarrow> rat \<Rightarrow> bool" where
  "num_less (JNum r) c = (r < c)"
| "num_less (JInf b) c = (\<not> b)"
| "num_less v c = False"

text \<open>Truthiness of a document value.\<close>

fun truthy :: "jsval \<Rightarrow> bool" where
  "truthy JNull = False"
| "truthy (JBool b) = b"
| "truthy (JNum r) = (r \<noteq> 0)"
| "truthy JNaN = False"
| "truthy (JInf b) = True"
| "truthy (JStr s) = (s \<noteq> [])"
| "truthy (JArr xs) = True"
| "truthy (JObj kvs) = True"

text \<open>The canonical array index a property name denotes, if any (\<open>''0''\<close>, \<open>''17''\<close>).\<close>

definition digit_val :: "char \<Rightarrow> nat option" where
  "digit_val c = (let n = of_char c :: nat in if 48 \<le> n \<and> n \<le> 57 then Some (n - 48) else None)"

fun digits_val :: "nat \<Rightarrow> string \<Rightarrow> nat option" where
  "digits_val acc [] = Some acc"
| "digits_val acc (c # cs) =
     (case digit_val c of None \<Rightarrow> None | Some d \<Rightarrow> digits_val (10 * acc + d) cs)"

definition array_index :: "string \<Rightarrow> nat option" where
  "array_index s =
     (if s = [] then None
      else if hd s = CHR ''0'' \<and> tl s \<noteq> [] then None
      else case digits_val 0 s of
             Some i \<Rightarrow> (if i < 4294967295 then Some i else None)
           | None \<Rightarrow> None)"

text \<open>
  The own properties of an object in the order of enumeration (\<open>Object.keys\<close>,
  \<open>Object.entries\<close>, \<open>JSON.stringify\<close>, the YAML dump): the properties whose name is an
  array index first, by ascending index, then the others in the order of creation.
\<close>

definition index_of :: "string \<Rightarrow> nat" where
  "index_of k = (case array_index k of Some i \<Rightarrow> i | None \<Rightarrow> 0)"

definition own_order :: "(string \<times> 'v) list \<Rightarrow> (string \<times> 'v) list" where
  "own_order kvs =
     sort_key (\<lambda>kv. index_of (fst kv)) (filter (\<lambda>kv. array_index (fst kv) \<noteq> None) kvs)
     @ filter (\<lambda>kv. array_index (fst kv) = None) kvs"

text \<open>Decimal notation of an index, for the keys of lists.\<close>

function show_nat :: "nat \<Rightarrow> string" where
  "show_nat n =
     (if n < 10 then [char_of (48 + n)]
      else show_nat (n div 10) @ [char_of (48 + n mod 10)])"
  by pat_completeness auto
termination
  by (relation "measure id") auto

declare show_nat.simps [simp del]


subsection \<open>Reading a property\<close>

text \<open>
  Reading \<open>v[key]\<close> follows the prototype chain: when the value has no own property of
  that name, the read finds what its prototypes hold. A mapping inherits from the object
  prototype, a list from the list prototype and then from the object prototype. What is
  found there is a built-in of the language: the prototype itself (under the name
  \<open>__proto__\<close>) or one of its members (\<open>constructor\<close>, \<open>toString\<close>, ...), all of them
  functions. The member names are those of the runtime the image is built on
  (\<open>node:22\<close>).
\<close>

datatype builtin =
    ObjectPrototype
  | ArrayPrototype
  | ObjectMember string
  | ArrayMember string

text \<open>What a read finds: a value of the document, or a built-in.\<close>

datatype jsref =
    Doc jsval
  | Builtin builtin

definition object_members :: "string list" where
  "object_members =
     [''constructor'', ''__defineGetter__'', ''__defineSetter__'', ''hasOwnProperty'',
      ''__lookupGetter__'', ''__lookupSetter__'', ''isPrototypeOf'',
      ''propertyIsEnumerable'', ''toString'', ''valueOf'', ''toLocaleString'']"

definition array_members :: "string list" where
  "array_members =
     [''constructor'', ''at'', ''concat'', ''copyWithin'', ''fill'', ''find'', ''findIndex'',
      ''findLast'', ''findLastIndex'', ''lastIndexOf'', ''pop'', ''push'', ''reverse'',
      ''shift'', ''unshift'', ''slice'', ''sort'', ''splice'', ''includes'', ''indexOf'',
      ''join'', ''keys'', ''entries'', ''values'', ''forEach'', ''filter'', ''flat'',
      ''flatMap'', ''map'', ''every'', ''some'', ''reduce'', ''reduceRight'',
      ''toLocaleString'', ''toString'', ''toReversed'', ''toSorted'', ''toSpliced'',
      ''with'']"

text \<open>
  The process can put properties of its own on a built-in (the sync does, when a built-in
  is taken for a category). The realm holds them: the properties added to built-ins since
  the process started, by built-in and name. They are seen by every later read that
  reaches the built-in.
\<close>

type_synonym realm = "((builtin \<times> string) \<times> jsval) list"

definition pristine :: realm where
  "pristine = []"

definition extra :: "realm \<Rightarrow> builtin \<Rightarrow> string \<Rightarrow> jsval option" where
  "extra R b k = map_of R (b, k)"

text \<open>A read that has reached the object prototype; \<open>proto\<close> is the prototype of the
  value the read started from (what the accessor \<open>__proto__\<close> answers).\<close>

definition from_object_prototype :: "realm \<Rightarrow> builtin \<Rightarrow> string \<Rightarrow> jsref option" where
  "from_object_prototype R proto k =
     (case extra R ObjectPrototype k of
        Some v \<Rightarrow> Some (Doc v)
      | None \<Rightarrow>
          (if k = ''__proto__'' then Some (Builtin proto)
           else if k \<in> set object_members then Some (Builtin (ObjectMember k))
           else None))"

text \<open>The own properties of a list: its elements and its length.\<close>

definition own_of_list :: "jsval list \<Rightarrow> string \<Rightarrow> jsval option" where
  "own_of_list xs k =
     (if k = ''length'' then Some (JNum (of_nat (length xs)))
      else case array_index k of
             Some i \<Rightarrow> (if i < length xs then Some (xs ! i) else None)
           | None \<Rightarrow> None)"

text \<open>\<open>v[key]\<close> for a mapping or a list. (The code indexes by a channel or category
  name only values of type object that are not null.)\<close>

fun lookup :: "realm \<Rightarrow> jsval \<Rightarrow> string \<Rightarrow> jsref option" where
  "lookup R (JObj kvs) k =
     (case map_of kvs k of
        Some v \<Rightarrow> Some (Doc v)
      | None \<Rightarrow> from_object_prototype R ObjectPrototype k)"
| "lookup R (JArr xs) k =
     (case own_of_list xs k of
        Some v \<Rightarrow> Some (Doc v)
      | None \<Rightarrow>
          (case extra R ArrayPrototype k of
             Some v \<Rightarrow> Some (Doc v)
           | None \<Rightarrow>
               (if k \<in> set array_members then Some (Builtin (ArrayMember k))
                else from_object_prototype R ArrayPrototype k)))"
| "lookup R v k = None"

fun typeof_ref :: "jsref \<Rightarrow> string" where
  "typeof_ref (Doc v) = typeof v"
| "typeof_ref (Builtin ObjectPrototype) = ''object''"
| "typeof_ref (Builtin ArrayPrototype) = ''object''"
| "typeof_ref (Builtin (ObjectMember n)) = ''function''"
| "typeof_ref (Builtin (ArrayMember n)) = ''function''"

fun truthy_ref :: "jsref \<Rightarrow> bool" where
  "truthy_ref (Doc v) = truthy v"
| "truthy_ref (Builtin b) = True"

text \<open>
  The settings of a category are read under five fixed names. No built-in of the
  language has a member of one of these names, so that on a value without such an own
  property the read finds only what the process has put on a prototype; on a built-in
  it finds what the process has put on that built-in or on the object prototype.
  (Reading a property of null throws; the callers test the category first.)
\<close>

datatype field = Enabled | Default | DeleteOld | Channels | Overrides

fun field_name :: "field \<Rightarrow> string" where
  "field_name Enabled = ''enabled''"
| "field_name Default = ''default''"
| "field_name DeleteOld = ''deleteOld''"
| "field_name Channels = ''_channels''"
| "field_name Overrides = ''overrides''"

fun cat_field :: "realm \<Rightarrow> jsref \<Rightarrow> field \<Rightarrow> jsval option" where
  "cat_field R (Doc (JObj kvs)) f =
     (case map_of kvs (field_name f) of
        Some v \<Rightarrow> Some v
      | None \<Rightarrow> extra R ObjectPrototype (field_name f))"
| "cat_field R (Doc (JArr xs)) f =
     (case extra R ArrayPrototype (field_name f) of
        Some v \<Rightarrow> Some v
      | None \<Rightarrow> extra R ObjectPrototype (field_name f))"
| "cat_field R (Doc JNull) f = None"
| "cat_field R (Doc v) f = extra R ObjectPrototype (field_name f)"
| "cat_field R (Builtin ObjectPrototype) f = extra R ObjectPrototype (field_name f)"
| "cat_field R (Builtin b) f =
     (case extra R b (field_name f) of
        Some v \<Rightarrow> Some v
      | None \<Rightarrow> extra R ObjectPrototype (field_name f))"

text \<open>
  Conversion to a string, as in a template literal, throws a TypeError for a mapping
  with an own property \<open>toString\<close> (a value of the document is not callable, and the
  inherited \<open>valueOf\<close> returns the mapping itself), and for a list with such an element
  (a list is joined from the strings of its elements, null counting as empty). Every
  other value of the document, and every built-in, has a string.
\<close>

fun unprintable :: "jsval \<Rightarrow> bool" and unprintable_list :: "jsval list \<Rightarrow> bool" where
  "unprintable (JObj kvs) = (map_of kvs ''toString'' \<noteq> None)"
| "unprintable (JArr xs) = unprintable_list xs"
| "unprintable JNull = False"
| "unprintable (JBool b) = False"
| "unprintable (JNum r) = False"
| "unprintable JNaN = False"
| "unprintable (JInf b) = False"
| "unprintable (JStr s) = False"
| "unprintable_list [] = False"
| "unprintable_list (x # xs) = (unprintable x \<or> unprintable_list xs)"

fun unprintable_ref :: "jsref \<Rightarrow> bool" where
  "unprintable_ref (Doc v) = unprintable v"
| "unprintable_ref (Builtin b) = False"

definition type_error :: string where
  "type_error = ''Cannot convert object to primitive value''"


section \<open>Logging\<close>

datatype level = INFO | WARN | ERROR

text \<open>
  A log line is its level and its message; a message is kept structured (the template
  it comes from and the values interpolated into it).
\<close>

datatype message_text =
    InvalidGlobalDefault jsval
  | InvalidRetention jsref string jsval
  | AlreadyRunningSkipping
  | ConfigReloadFailed
  | StartingCleanup bool
  | GuildNotFound
  | CleanupCancelledByUser
  | ProcessingCategory string nat
  | Scanning string string nat nat
  | NothingToDelete string string nat
  | DryRunWouldDelete string string nat nat nat "nat option"
  | DeleteFailed string string nat string
  | OldRemain string string nat nat
  | Deleted string string nat
  | ChannelFailed string string string
  | CleanupSummary bool nat nat nat nat

type_synonym log_entry = "level \<times> message_text"


section \<open>Configuration\<close>

text \<open>
  The configuration in memory, as \<open>loadConfig\<close> leaves it. The three numeric settings
  of the section \<open>discord\<close> are the result of \<open>Math.max(lo, Math.floor(x))\<close>: a natural
  number, or NaN when the configured value is not a number, or unbounded when it is
  infinite; they are undefined when the section itself is a scalar (the assignment to
  a property of a scalar is dropped). \<open>skipPinned\<close> and \<open>dryRun\<close> stand for the truth
  value of the setting. \<open>cleanupColor\<close> is the colour setting of the notifications.
  \<open>categories\<close> is a mapping (as the dashboard's replace route requires), given by its
  own properties; the value stored for a category is any value of the document.
\<close>

datatype limit = Finite nat | Unbounded | NotANumber | Undefined

text \<open>\<open>Math.max(lo, Math.floor(x))\<close> for a number \<open>x\<close>.\<close>

fun loadLimit :: "nat \<Rightarrow> jsval \<Rightarrow> limit" where
  "loadLimit lo (JNum r) = Finite (nat (max (int lo) \<lfloor>r\<rfloor>))"
| "loadLimit lo (JInf True) = Unbounded"
| "loadLimit lo (JInf False) = Finite lo"
| "loadLimit lo v = NotANumber"

record discord_settings =
  maxMessagesPerChannel :: limit
  maxOldDeletesPerChannel :: limit
  delayBetweenChannels :: limit
  skipPinned :: bool

record config =
  globalDefault :: jsval
  dryRun :: bool
  discord :: discord_settings
  cleanupColor :: jsval
  categories :: "(string \<times> jsval) list"

text \<open>
  \<open>loadConfig\<close>, the part that settles \<open>globalDefault\<close>: a missing or null value
  becomes 7; a value that is not an integer of at least -1 is replaced by 7 with a
  warning.
\<close>

definition loadGlobalDefault :: "jsval option \<Rightarrow> jsval \<times> log_entry list" where
  "loadGlobalDefault raw =
     (let g = (case raw of None \<Rightarrow> JNum 7 | Some JNull \<Rightarrow> JNum 7 | Some v \<Rightarrow> v)
      in if typeof g \<noteq> ''number'' \<or> \<not> Number_isInteger g \<or> num_less g (-1)
         then (JNum 7, [(WARN, InvalidGlobalDefault g)])
         else (g, []))"


section \<open>Retention resolution\<close>

text \<open>\<open>config.categories[categoryName]\<close>.\<close>

definition category_of :: "realm \<Rightarrow> config \<Rightarrow> string \<Rightarrow> jsref option" where
  "category_of R cfg categoryName = lookup R (JObj (categories cfg)) categoryName"

text \<open>The first entry of the channel list that is an object and answers the channel
  name with something other than \<open>undefined\<close>.\<close>

fun findOverride :: "realm \<Rightarrow> jsval list \<Rightarrow> string \<Rightarrow> jsref option" where
  "findOverride R [] n = None"
| "findOverride R (e # es) n =
     (if typeof e = ''object'' \<and> e \<noteq> JNull \<and> lookup R e n \<noteq> None
      then lookup R e n
      else findOverride R es n)"

definition getChannelOverride :: "realm \<Rightarrow> jsref \<Rightarrow> string \<Rightarrow> jsref option" where
  "getChannelOverride R cat channelName =
     (case cat_field R cat Channels of
        Some (JArr es) \<Rightarrow> findOverride R es channelName
      | _ \<Rightarrow> None)"

definition isEnabled :: "realm \<Rightarrow> config \<Rightarrow> string \<Rightarrow> bool" where
  "isEnabled R cfg categoryName =
     (case category_of R cfg categoryName of
        None \<Rightarrow> False
      | Some cat \<Rightarrow> truthy_ref cat \<and> cat_field R cat Enabled = Some (JBool True))"

text \<open>
  \<open>validateRetention\<close>. The warning is built from the value and from the global default
  in a template literal, before it is logged: when one of them has no string, the
  function throws.
\<close>

definition fallback :: "config \<Rightarrow> jsref \<Rightarrow> string \<Rightarrow> string + jsval \<times> log_entry list" where
  "fallback cfg v context =
     (if unprintable_ref v \<or> unprintable (globalDefault cfg) then Inl type_error
      else Inr (globalDefault cfg, [(WARN, InvalidRetention v context (globalDefault cfg))]))"

fun validateRetention ::
  "config \<Rightarrow> jsref \<Rightarrow> string \<Rightarrow> string + jsval \<times> log_entry list" where
  "validateRetention cfg (Doc v) context =
     (if typeof v \<noteq> ''number'' \<or> \<not> Number_isInteger v \<or> num_less v (-1)
      then fallback cfg (Doc v) context
      else Inr (v, []))"
| "validateRetention cfg (Builtin b) context = fallback cfg (Builtin b) context"

definition getRetention ::
  "realm \<Rightarrow> config \<Rightarrow> string \<Rightarrow> string \<Rightarrow> string + jsval \<times> log_entry list" where
  "getRetention R cfg categoryName channelName =
     (case category_of R cfg categoryName of
        None \<Rightarrow> Inr (JNull, [])
      | Some cat \<Rightarrow>
          (if \<not> truthy_ref cat then Inr (JNull, [])
           else case getChannelOverride R cat channelName of
                  Some ov \<Rightarrow> validateRetention cfg ov (categoryName @ ''/#'' @ channelName)
                | None \<Rightarrow>
                    (case cat_field R cat Default of
                       Some d \<Rightarrow> validateRetention cfg (Doc d) (categoryName @ ''/default'')
                     | None \<Rightarrow> Inr (globalDefault cfg, []))))"

definition getRetentionSource :: "realm \<Rightarrow> config \<Rightarrow> string \<Rightarrow> string \<Rightarrow> string" where
  "getRetentionSource R cfg categoryName channelName =
     (case category_of R cfg categoryName of
        None \<Rightarrow> ''global''
      | Some cat \<Rightarrow>
          (if \<not> truthy_ref cat then ''global''
           else if getChannelOverride R cat channelName \<noteq> None then ''override''
           else if cat_field R cat Default \<noteq> None then ''category''
           else ''global''))"

text \<open>The data model's invariant on a retention value: an integer of at least -1.\<close>

definition retention_ok :: "jsval \<Rightarrow> bool" where
  "retention_ok v = (\<exists>n::int. -1 \<le> n \<and> v = JNum (of_int n))"

lemma retention_ok_iff:
  "retention_ok v \<longleftrightarrow> \<not> (typeof v \<noteq> ''number'' \<or> \<not> Number_isInteger v \<or> num_less v (-1))"
proof (cases v)
  case (JNum r)
  show ?thesis
  proof
    assume "retention_ok v"
    then obtain n :: int where n: "-1 \<le> n" "r = of_int n"
      using JNum by (auto simp: retention_ok_def)
    then show "\<not> (typeof v \<noteq> ''number'' \<or> \<not> Number_isInteger v \<or> num_less v (-1))"
      using JNum by simp
  next
    assume a: "\<not> (typeof v \<noteq> ''number'' \<or> \<not> Number_isInteger v \<or> num_less v (-1))"
    from a have r: "of_int \<lfloor>r\<rfloor> = r"
      using JNum by (cases "of_int \<lfloor>r\<rfloor> = r") simp_all
    from a have "-1 \<le> r"
      using JNum by (cases "r < -1") simp_all
    then have "(-1::rat) \<le> of_int \<lfloor>r\<rfloor>" by (simp only: r)
    then have lo: "-1 \<le> \<lfloor>r\<rfloor>" by linarith
    have "v = JNum (of_int \<lfloor>r\<rfloor>)"
      using JNum by (simp only: r)
    with lo show "retention_ok v"
      unfolding retention_ok_def by blast
  qed
qed (auto simp: retention_ok_def)

lemma loadGlobalDefault_ok: "retention_ok (fst (loadGlobalDefault raw))"
proof -
  have seven: "retention_ok (JNum 7)"
    unfolding retention_ok_def by (intro exI[of _ 7]) simp
  show ?thesis
    using seven retention_ok_iff
    by (auto simp: loadGlobalDefault_def Let_def split: option.splits jsval.splits)
qed


text \<open>
  Example configuration: global default 7; a category without default whose channel
  list holds a plain channel and the override \<open>archive: -1\<close>; a category with default
  14 and a plain channel; a category with default 30 whose channel list holds the
  override \<open>archive: -1\<close> and a plain channel named \<open>constructor\<close>; a category whose
  two channels both have an override, the second channel being named \<open>constructor\<close>; a
  category with default 7 and three plain channels; a
  category with overrides and a default that are not retention values; a category with
  an override that is a mapping with a property \<open>toString\<close>.
\<close>

definition example_discord :: discord_settings where
  "example_discord =
     \<lparr>maxMessagesPerChannel = Finite 500, maxOldDeletesPerChannel = Finite 20,
      delayBetweenChannels = Finite 2000, skipPinned = True\<rparr>"

definition example_config :: config where
  "example_config =
     \<lparr>globalDefault = JNum 7, dryRun = False, discord = example_discord,
      cleanupColor = JStr ''#238636'',
      categories =
        [(''logs'', JObj [(''enabled'', JBool True),
                          (''_channels'', JArr [JStr ''general'', JObj [(''archive'', JNum (-1))]])]),
         (''chat'', JObj [(''enabled'', JBool True), (''default'', JNum 14),
                          (''_channels'', JArr [JStr ''general''])]),
         (''media'', JObj [(''enabled'', JBool True), (''default'', JNum 30),
                           (''_channels'', JArr [JObj [(''archive'', JNum (-1))],
                                                 JStr ''constructor''])]),
         (''dev'', JObj [(''enabled'', JBool True), (''default'', JNum 30),
                         (''_channels'', JArr [JObj [(''builds'', JNum 3)],
                                               JObj [(''constructor'', JNum 5)]])]),
         (''ops'', JObj [(''enabled'', JBool True), (''default'', JNum 7),
                         (''_channels'', JArr [JStr ''alpha'', JStr ''beta'', JStr ''gamma''])]),
         (''odd'', JObj [(''enabled'', JBool True), (''default'', JStr ''soon''),
                         (''_channels'', JArr [JObj [(''spam'', JNum (-5))],
                                               JObj [(''half'', JNum (5 / 2))],
                                               JStr ''general''])]),
         (''misc'', JObj [(''enabled'', JBool True),
                          (''_channels'',
                             JArr [JObj [(''general'', JObj [(''toString'', JNum 5)])],
                                   JStr ''other''])])]\<rparr>"

text \<open>
  C10. The claim is that for a category name that is not a key of the category map
  \<open>getRetention\<close> returns null. The code reads \<open>config.categories[categoryName]\<close>, which
  for a name such as \<open>constructor\<close>, \<open>toString\<close> or \<open>__proto__\<close> finds a member of the
  object prototype: the test \<open>!cat\<close> does not fire, and \<open>getRetention\<close> returns the
  global default, 7, as if the category were configured. (For a name that is neither a
  key nor inherited, here \<open>gone\<close>, it returns null.)
\<close>

theorem getRetention_inherited_category_name:
  "map_of (categories example_config) ''constructor'' = None
   \<and> getRetention pristine example_config ''constructor'' ''general'' = Inr (JNum 7, [])
   \<and> getRetention pristine example_config ''toString'' ''general'' = Inr (JNum 7, [])
   \<and> getRetention pristine example_config ''__proto__'' ''general'' = Inr (JNum 7, [])
   \<and> getRetentionSource pristine example_config ''constructor'' ''general'' = ''global''
   \<and> getRetention pristine example_config ''gone'' ''general'' = Inr (JNull, [])"
  by code_simp

text \<open>
  C2. The claim is that resolution returns the inline override when the channel list
  holds one for the channel, and otherwise the category default, with the matching tag.
  The code tests \<open>entry[channelName] !== undefined\<close> on each entry that is an object,
  and that read follows the prototype chain. For the plain channel \<open>constructor\<close> of the
  category \<open>media\<close> (default 30), whose list holds no override for it, the read finds
  the member \<open>constructor\<close> of the object prototype on the entry \<open>archive: -1\<close>: the tag
  is \<open>override\<close>, and the value, not being a number, is replaced by the global default 7
  with a warning. In \<open>dev\<close> the channel \<open>constructor\<close> has the override 5, but the first
  entry answers first and the result is again 7. (The overrides of the other channels,
  and the scenarios of the specification, resolve as claimed.)
\<close>

theorem getRetention_inherited_channel_name:
  "getRetentionSource pristine example_config ''media'' ''constructor'' = ''override''
   \<and> getRetention pristine example_config ''media'' ''constructor'' =
       Inr (JNum 7, [(WARN, InvalidRetention (Builtin (ObjectMember ''constructor''))
                             ''media/#constructor'' (JNum 7))])
   \<and> fst (projr (getRetention pristine example_config ''dev'' ''constructor'')) = JNum 7
   \<and> getRetention pristine example_config ''dev'' ''builds'' = Inr (JNum 3, [])
   \<and> getRetentionSource pristine example_config ''logs'' ''archive'' = ''override''
   \<and> getRetention pristine example_config ''logs'' ''archive'' = Inr (JNum (-1), [])
   \<and> getRetentionSource pristine example_config ''chat'' ''general'' = ''category''
   \<and> getRetention pristine example_config ''chat'' ''general'' = Inr (JNum 14, [])
   \<and> getRetentionSource pristine example_config ''logs'' ''general'' = ''global''
   \<and> getRetention pristine example_config ''logs'' ''general'' = Inr (JNum 7, [])"
  by code_simp



section \<open>The guards against concurrent cleanup and sync\<close>

text \<open>
  The process holds two flags: \<open>cleanupRunning\<close>, set by \<open>runCleanup\<close> after its own
  test and cleared in its \<open>finally\<close>; and \<open>syncRunning\<close>, which belongs to the API
  routes, set by the sync route around its call of \<open>syncConfig\<close>. The two counters
  are not program state: they count the \<open>runCleanup\<close> bodies and the \<open>syncConfig\<close>
  calls that have started and not yet returned. Each trigger is one synchronous step
  (test of the flags, then the flag set before the first suspension point); the
  completion of an operation is a later step.
\<close>

record proc =
  clientReady :: bool
  cleanupRunning :: bool
  syncRunning :: bool
  cleanupsInFlight :: nat
  syncsInFlight :: nat

datatype trigger =
    ApiRun
  | ApiDryrun
  | ApiSync
  | CronTick
  | CleanupReturns
  | SyncReturns

datatype answer =
    Started
  | Http409
  | Http503
  | SkippedAlreadyRunning
  | Returned
  | Ignored

text \<open>Entry of \<open>runCleanup\<close>: it tests \<open>cleanupRunning\<close> only.\<close>

definition runCleanup_enter :: "proc \<Rightarrow> proc \<times> answer" where
  "runCleanup_enter p =
     (if cleanupRunning p then (p, SkippedAlreadyRunning)
      else (p\<lparr>cleanupRunning := True, cleanupsInFlight := cleanupsInFlight p + 1\<rparr>, Started))"

fun step :: "proc \<Rightarrow> trigger \<Rightarrow> proc \<times> answer" where
  "step p ApiRun =
     (if \<not> clientReady p then (p, Http503)
      else if cleanupRunning p \<or> syncRunning p then (p, Http409)
      else runCleanup_enter p)"
| "step p ApiDryrun =
     (if \<not> clientReady p then (p, Http503)
      else if cleanupRunning p \<or> syncRunning p then (p, Http409)
      else runCleanup_enter p)"
| "step p ApiSync =
     (if \<not> clientReady p then (p, Http503)
      else if cleanupRunning p \<or> syncRunning p then (p, Http409)
      else (p\<lparr>syncRunning := True, syncsInFlight := syncsInFlight p + 1\<rparr>, Started))"
| "step p CronTick = runCleanup_enter p"
| "step p CleanupReturns =
     (if cleanupsInFlight p = 0 then (p, Ignored)
      else (p\<lparr>cleanupRunning := False, cleanupsInFlight := cleanupsInFlight p - 1\<rparr>, Returned))"
| "step p SyncReturns =
     (if syncsInFlight p = 0 then (p, Ignored)
      else (p\<lparr>syncRunning := False, syncsInFlight := syncsInFlight p - 1\<rparr>, Returned))"

fun steps :: "proc \<Rightarrow> trigger list \<Rightarrow> proc \<times> answer list" where
  "steps p [] = (p, [])"
| "steps p (t # ts) =
     (case step p t of (p', a) \<Rightarrow> (case steps p' ts of (p'', as) \<Rightarrow> (p'', a # as)))"

definition idle :: proc where
  "idle = \<lparr>clientReady = True, cleanupRunning = False, syncRunning = False,
           cleanupsInFlight = 0, syncsInFlight = 0\<rparr>"

definition single_flight :: "proc \<Rightarrow> bool" where
  "single_flight p \<longleftrightarrow>
     cleanupsInFlight p + syncsInFlight p \<le> 1
     \<and> (cleanupRunning p \<longleftrightarrow> cleanupsInFlight p = 1)
     \<and> (syncRunning p \<longleftrightarrow> syncsInFlight p = 1)"

text \<open>The API routes test both flags: without a scheduler tick, every step keeps at most
  one operation in flight, and a scheduler tick does so when no sync is in flight.\<close>

lemma step_single_flight:
  assumes "single_flight p" and "t = CronTick \<longrightarrow> syncsInFlight p = 0"
  shows "single_flight (fst (step p t))"
  using assms by (cases t) (auto simp: single_flight_def runCleanup_enter_def)

lemma steps_single_flight:
  assumes "single_flight p" and "CronTick \<notin> set ts"
  shows "single_flight (fst (steps p ts))"
  using assms
proof (induction ts arbitrary: p)
  case Nil
  then show ?case by simp
next
  case (Cons t ts)
  have "single_flight (fst (step p t))"
    using Cons.prems by (intro step_single_flight) auto
  then have "single_flight (fst (steps (fst (step p t)) ts))"
    using Cons.prems by (intro Cons.IH) auto
  then show ?case
    by (auto split: prod.splits)
qed

text \<open>
  C1. The claim asks that a request arriving while a full sync is active be rejected,
  whatever its trigger. The scheduler's tick calls \<open>runCleanup\<close> directly, whose guard
  does not see \<open>syncRunning\<close>: after an API sync has started and before it returns, a
  tick starts a cleanup, and a sync and a cleanup are in flight together. (The same
  request through the API route is answered 409.)
\<close>

theorem cron_tick_during_sync_starts_cleanup:
  "steps idle [ApiSync, CronTick] =
     (\<lparr>clientReady = True, cleanupRunning = True, syncRunning = True,
       cleanupsInFlight = 1, syncsInFlight = 1\<rparr>, [Started, Started])
   \<and> snd (steps idle [ApiSync, ApiRun]) = [Started, Http409]"
  by (simp add: idle_def runCleanup_enter_def)


section \<open>Cleaning one channel\<close>

text \<open>
  A message as the cleanup reads it. Times are milliseconds since the epoch. A channel
  is the platform's side of the conversation: what a fetch with a given cursor and limit
  returns or throws, what a bulk delete of a batch returns (the number it deleted) or
  throws, whether deleting one message throws, and the clock reading taken when the
  channel's turn comes. A channel holds finitely many messages: after \<open>ch_depth\<close> pages
  the platform answers a fetch with an empty page.
\<close>

record message =
  msg_id :: nat
  createdAt :: int
  pinned :: bool

record channel =
  ch_name :: string
  ch_now :: int
  ch_depth :: nat
  ch_fetch :: "nat option \<Rightarrow> nat \<Rightarrow> string + message list"
  ch_bulkDelete :: "message list \<Rightarrow> string + nat"
  ch_delete :: "message \<Rightarrow> string option"

definition fetch_page :: "channel \<Rightarrow> nat \<Rightarrow> nat option \<Rightarrow> nat \<Rightarrow> string + message list" where
  "fetch_page ch page lastId n = (if page < ch_depth ch then ch_fetch ch lastId n else Inr [])"

text \<open>The delete requests sent to the platform, tagged by the statement that sends them:
  a bulk call on a batch, the single delete of a batch of one, and the delete of one
  message older than 14 days.\<close>

datatype api_call =
    BulkDelete "message list"
  | BatchOfOneDelete message
  | OldDelete message

text \<open>
  What a run leaves behind as it goes: the number of suspension points passed so far
  (each awaited call or sleep is one), the lines logged and the delete requests sent.
\<close>

record eff =
  clock :: nat
  logs :: "log_entry list"
  calls :: "api_call list"

definition tick :: "eff \<Rightarrow> eff" where
  "tick e = e\<lparr>clock := clock e + 1\<rparr>"

definition say :: "level \<Rightarrow> message_text \<Rightarrow> eff \<Rightarrow> eff" where
  "say l m e = e\<lparr>logs := logs e @ [(l, m)]\<rparr>"

definition request :: "api_call \<Rightarrow> eff \<Rightarrow> eff" where
  "request c e = e\<lparr>calls := calls e @ [c]\<rparr>"

text \<open>The cancellation flag is set by a request served at some suspension point of the
  run (if at all) and stays set; it reads true from then on.\<close>

definition cleanupCancelled :: "nat option \<Rightarrow> eff \<Rightarrow> bool" where
  "cleanupCancelled cancelAt e = (case cancelAt of None \<Rightarrow> False | Some t \<Rightarrow> t \<le> clock e)"

definition day_ms :: int where
  "day_ms = 24 * 60 * 60 * 1000"

text \<open>A date outside the representable range is invalid and compares false.\<close>

definition timeClip :: "rat \<Rightarrow> rat option" where
  "timeClip t = (if \<bar>t\<bar> \<le> 8640000000000000 then Some t else None)"

text \<open>The number a retention stands for in \<open>retention * 24 * 60 * 60 * 1000\<close>. Resolution
  hands over a number or null; no other value reaches the product.\<close>

fun retention_number :: "jsval \<Rightarrow> rat option" where
  "retention_number (JNum r) = Some r"
| "retention_number JNull = Some 0"
| "retention_number v = None"

definition cutoffDate :: "jsval \<Rightarrow> int \<Rightarrow> rat option" where
  "cutoffDate retention now =
     (case retention_number retention of
        None \<Rightarrow> None
      | Some r \<Rightarrow> timeClip (of_int now - r * of_int day_ms))"

definition date_before :: "int \<Rightarrow> rat option \<Rightarrow> bool" where
  "date_before t cutoff = (case cutoff of None \<Rightarrow> False | Some c \<Rightarrow> of_int t < c)"

text \<open>What the code computes with a numeric setting: \<open>fetched < maxMessages\<close>,
  \<open>Math.min(100, maxMessages - fetched)\<close> (read only when the former holds),
  \<open>oldDeletable.slice(0, maxOld)\<close>, \<open>oldDeletable.length > maxOld\<close> and
  \<open>Math.min(oldDeletable.length, maxOld)\<close>, whose result can be NaN, written \<open>None\<close>.\<close>

fun below :: "nat \<Rightarrow> limit \<Rightarrow> bool" where
  "below n (Finite m) = (n < m)"
| "below n Unbounded = True"
| "below n NotANumber = False"
| "below n Undefined = False"

fun batchSize :: "limit \<Rightarrow> nat \<Rightarrow> nat" where
  "batchSize (Finite m) fetched = min 100 (m - fetched)"
| "batchSize l fetched = 100"

fun slice0 :: "limit \<Rightarrow> 'a list \<Rightarrow> 'a list" where
  "slice0 (Finite n) xs = take n xs"
| "slice0 Unbounded xs = xs"
| "slice0 NotANumber xs = []"
| "slice0 Undefined xs = xs"

fun excess :: "nat \<Rightarrow> limit \<Rightarrow> nat option" where
  "excess len (Finite n) = (if len > n then Some (len - n) else None)"
| "excess len l = None"

fun math_min :: "nat \<Rightarrow> limit \<Rightarrow> nat option" where
  "math_min len (Finite n) = Some (min len n)"
| "math_min len Unbounded = Some len"
| "math_min len NotANumber = None"
| "math_min len Undefined = None"

text \<open>The loop over one fetched page.\<close>

fun splitPage ::
  "bool \<Rightarrow> rat option \<Rightarrow> int \<Rightarrow> bool \<Rightarrow> message list \<Rightarrow> message list \<Rightarrow> message list
   \<Rightarrow> message list \<times> message list" where
  "splitPage sp cutoff bulkDeleteLimit delOld [] bulkDeletable oldDeletable =
     (bulkDeletable, oldDeletable)"
| "splitPage sp cutoff bulkDeleteLimit delOld (msg # rest) bulkDeletable oldDeletable =
     (if pinned msg \<and> sp
      then splitPage sp cutoff bulkDeleteLimit delOld rest bulkDeletable oldDeletable
      else if date_before (createdAt msg) cutoff
      then (if createdAt msg > bulkDeleteLimit
            then splitPage sp cutoff bulkDeleteLimit delOld rest (bulkDeletable @ [msg]) oldDeletable
            else if delOld
            then splitPage sp cutoff bulkDeleteLimit delOld rest bulkDeletable (oldDeletable @ [msg])
            else splitPage sp cutoff bulkDeleteLimit delOld rest bulkDeletable oldDeletable)
      else splitPage sp cutoff bulkDeleteLimit delOld rest bulkDeletable oldDeletable)"

text \<open>
  The fetch loop: pages of at most 100 messages until the channel is exhausted or
  \<open>maxMessages\<close> have been fetched. Besides the two lists and the count it returns the
  messages seen, in order; a fetch that throws ends the loop with the error. \<open>page\<close>
  counts the fetches made.
\<close>

function fetchAndSplit ::
  "channel \<Rightarrow> limit \<Rightarrow> bool \<Rightarrow> rat option \<Rightarrow> int \<Rightarrow> bool
   \<Rightarrow> nat \<Rightarrow> nat \<Rightarrow> nat option \<Rightarrow> message list \<Rightarrow> message list \<Rightarrow> message list \<Rightarrow> eff
   \<Rightarrow> eff \<times> (string + message list \<times> message list \<times> nat \<times> message list)" where
  "fetchAndSplit ch maxMessages sp cutoff bulkDeleteLimit delOld
       page fetched lastId bulkDeletable oldDeletable seen e =
     (if below fetched maxMessages
      then (case fetch_page ch page lastId (batchSize maxMessages fetched) of
              Inl err \<Rightarrow> (tick e, Inl err)
            | Inr messages \<Rightarrow>
                (if length messages = 0
                 then (tick e, Inr (bulkDeletable, oldDeletable, fetched, seen))
                 else (case splitPage sp cutoff bulkDeleteLimit delOld messages
                               bulkDeletable oldDeletable of
                         (bulk', old') \<Rightarrow>
                           fetchAndSplit ch maxMessages sp cutoff bulkDeleteLimit delOld
                             (page + 1) (fetched + length messages)
                             (Some (msg_id (last messages)))
                             bulk' old' (seen @ messages) (tick e))))
      else (e, Inr (bulkDeletable, oldDeletable, fetched, seen)))"
  by pat_completeness auto
termination
  by (relation "measure (\<lambda>(ch, maxMessages, sp, cutoff, bl, delOld, page, rest).
                            ch_depth ch - page)")
     (auto simp: fetch_page_def split: if_splits)

declare fetchAndSplit.simps [simp del]

text \<open>Bulk deletion in batches of 100; a batch of exactly one message is deleted by a
  single delete. A call that throws ends the loop with the error.\<close>

function bulkPhase ::
  "channel \<Rightarrow> message list \<Rightarrow> nat \<Rightarrow> nat \<Rightarrow> eff \<Rightarrow> eff \<times> (string + nat)" where
  "bulkPhase ch bulkDeletable i deleted e =
     (if i < length bulkDeletable
      then (let batch = take 100 (drop i bulkDeletable)
            in if length batch = 1
               then (case ch_delete ch (hd batch) of
                       Some err \<Rightarrow> (tick (request (BatchOfOneDelete (hd batch)) e), Inl err)
                     | None \<Rightarrow>
                         bulkPhase ch bulkDeletable (i + 100) (deleted + 1)
                           (tick (request (BatchOfOneDelete (hd batch)) e)))
               else (case ch_bulkDelete ch batch of
                       Inl err \<Rightarrow> (tick (request (BulkDelete batch) e), Inl err)
                     | Inr n \<Rightarrow>
                         bulkPhase ch bulkDeletable (i + 100) (deleted + n)
                           (tick (request (BulkDelete batch) e))))
      else (e, Inr deleted))"
  by pat_completeness auto
termination
  by (relation "measure (\<lambda>(ch, bulkDeletable, i, deleted, e). length bulkDeletable - i)") auto

declare bulkPhase.simps [simp del]

text \<open>Individual deletion of the messages older than 14 days: the cancellation flag is
  read before each message; a delete that throws is logged as a warning and the loop
  goes on; a sleep follows each attempt.\<close>

fun oldPhase ::
  "nat option \<Rightarrow> channel \<Rightarrow> string \<Rightarrow> message list \<Rightarrow> nat \<Rightarrow> eff \<Rightarrow> nat \<times> eff" where
  "oldPhase cancelAt ch catName [] deleted e = (deleted, e)"
| "oldPhase cancelAt ch catName (msg # rest) deleted e =
     (if cleanupCancelled cancelAt e then (deleted, e)
      else (case ch_delete ch msg of
              None \<Rightarrow>
                oldPhase cancelAt ch catName rest (deleted + 1)
                  (tick (tick (request (OldDelete msg) e)))
            | Some err \<Rightarrow>
                oldPhase cancelAt ch catName rest deleted
                  (tick (say WARN (DeleteFailed catName (ch_name ch) (msg_id msg) err)
                     (tick (request (OldDelete msg) e))))))"

text \<open>The scan of one channel: the fetch loop started with empty lists, the cutoff
  taken from the retention and the second cutoff 14 days before now.\<close>

definition scanChannel ::
  "config \<Rightarrow> bool \<Rightarrow> channel \<Rightarrow> jsval \<Rightarrow> eff
   \<Rightarrow> eff \<times> (string + message list \<times> message list \<times> nat \<times> message list)" where
  "scanChannel cfg delOld ch retention e =
     fetchAndSplit ch (maxMessagesPerChannel (discord cfg)) (skipPinned (discord cfg))
       (cutoffDate retention (ch_now ch)) (ch_now ch - 14 * day_ms) delOld 0 0 None [] [] [] e"

text \<open>The body of the \<open>try\<close> for one channel. On success it returns the count recorded
  for the channel (NaN is \<open>None\<close>) and the amount added to the run's total.\<close>

definition scanAndDelete ::
  "config \<Rightarrow> nat option \<Rightarrow> bool \<Rightarrow> string \<Rightarrow> bool \<Rightarrow> channel \<Rightarrow> jsval \<Rightarrow> eff
   \<Rightarrow> eff \<times> (string + nat option \<times> nat)" where
  "scanAndDelete cfg cancelAt effectiveDryRun catName delOld ch retention e =
     (let chanName = ch_name ch;
          maxOld = maxOldDeletesPerChannel (discord cfg)
      in case scanChannel cfg delOld ch retention e of
           (e1, Inl err) \<Rightarrow> (e1, Inl err)
         | (e1, Inr (bulkDeletable, oldDeletable, fetched, seen)) \<Rightarrow>
             (let cappedTotal = map_option (\<lambda>k. length bulkDeletable + k)
                                  (math_min (length oldDeletable) maxOld)
              in if length bulkDeletable + length oldDeletable = 0
                 then (say INFO (NothingToDelete catName chanName fetched) e1,
                       Inr (if effectiveDryRun then cappedTotal else Some 0, 0))
                 else if effectiveDryRun
                 then (let cappedOld = length (slice0 maxOld oldDeletable);
                           wouldDelete = length bulkDeletable + cappedOld
                       in (say INFO (DryRunWouldDelete catName chanName wouldDelete
                                       (length bulkDeletable) cappedOld
                                       (excess (length oldDeletable) maxOld)) e1,
                           Inr (cappedTotal, wouldDelete)))
                 else (case bulkPhase ch bulkDeletable 0 0 e1 of
                         (e2, Inl err) \<Rightarrow> (e2, Inl err)
                       | (e2, Inr deleted) \<Rightarrow>
                           (case oldPhase cancelAt ch catName (slice0 maxOld oldDeletable)
                                   deleted e2 of
                              (deleted', e3) \<Rightarrow>
                                (let e4 = (case maxOld of
                                             Finite n \<Rightarrow>
                                               (if length oldDeletable > n
                                                then say WARN (OldRemain catName chanName
                                                                 (length oldDeletable - n) n) e3
                                                else e3)
                                           | _ \<Rightarrow> e3)
                                 in (say INFO (Deleted catName chanName deleted') e4,
                                     Inr (Some deleted', deleted')))))))"

text \<open>One entry of a category's channel results: a channel skipped as never-delete, a
  channel with its count (NaN is \<open>None\<close>), or a channel with its error.\<close>

datatype channel_result =
    SkippedResult string
  | PurgedResult string jsval string "nat option"
  | ErrorResult string jsval string string

fun cr_name :: "channel_result \<Rightarrow> string" where
  "cr_name (SkippedResult n) = n"
| "cr_name (PurgedResult n r s k) = n"
| "cr_name (ErrorResult n r s err) = n"

text \<open>\<open>ch.purged || 0\<close>.\<close>

fun cr_purged :: "channel_result \<Rightarrow> nat" where
  "cr_purged (PurgedResult n r s (Some k)) = k"
| "cr_purged r = 0"

fun cr_error :: "channel_result \<Rightarrow> string option" where
  "cr_error (ErrorResult n r s err) = Some err"
| "cr_error r = None"

text \<open>The \<open>try\<close> with its \<open>catch\<close>: the result pushed for the channel, the amount added
  to the run's total, and whether the error branch was taken.\<close>

definition cleanChannel ::
  "config \<Rightarrow> nat option \<Rightarrow> bool \<Rightarrow> string \<Rightarrow> bool \<Rightarrow> channel \<Rightarrow> jsval \<Rightarrow> string \<Rightarrow> eff
   \<Rightarrow> channel_result \<times> nat \<times> bool \<times> eff" where
  "cleanChannel cfg cancelAt effectiveDryRun catName delOld ch retention retentionSource e =
     (case scanAndDelete cfg cancelAt effectiveDryRun catName delOld ch retention e of
        (e', Inr (purgedCount, added)) \<Rightarrow>
          (PurgedResult (ch_name ch) retention retentionSource purgedCount, added, False, e')
      | (e', Inl err) \<Rightarrow>
          (ErrorResult (ch_name ch) retention retentionSource err, 0, True,
           say ERROR (ChannelFailed catName (ch_name ch) err) e'))"



subsection \<open>Properties of the scan\<close>

text \<open>A message is eligible when it is not skipped as pinned and is older than the
  retention cutoff.\<close>

definition eligible :: "bool \<Rightarrow> rat option \<Rightarrow> message \<Rightarrow> bool" where
  "eligible sp cutoff m \<longleftrightarrow> \<not> (pinned m \<and> sp) \<and> date_before (createdAt m) cutoff"

lemma splitPage_filter:
  "splitPage sp cutoff bl dOld ms bulk old =
     (bulk @ filter (\<lambda>m. eligible sp cutoff m \<and> createdAt m > bl) ms,
      old @ filter (\<lambda>m. eligible sp cutoff m \<and> \<not> createdAt m > bl \<and> dOld) ms)"
  by (induction ms arbitrary: bulk old) (auto simp: eligible_def)

lemma fetchAndSplit_lists:
  "fetchAndSplit ch mx sp cutoff bl dOld page fetched lastId bulk old seen e
     = (e', Inr (bulk', old', fetched', seen'))
   \<Longrightarrow> \<exists>new. seen' = seen @ new
         \<and> bulk' = bulk @ filter (\<lambda>m. eligible sp cutoff m \<and> createdAt m > bl) new
         \<and> old' = old @ filter (\<lambda>m. eligible sp cutoff m \<and> \<not> createdAt m > bl \<and> dOld) new"
proof (induction ch mx sp cutoff bl dOld page fetched lastId bulk old seen e
       rule: fetchAndSplit.induct)
  case (1 ch mx sp cutoff bl dOld page fetched lastId bulk old seen e)
  show ?case
  proof (cases "below fetched mx")
    case False
    with "1.prems" show ?thesis
      by (simp add: fetchAndSplit.simps)
  next
    case True
    show ?thesis
    proof (cases "fetch_page ch page lastId (batchSize mx fetched)")
      case (Inl err)
      with True "1.prems" show ?thesis
        by (simp add: fetchAndSplit.simps)
    next
      case (Inr messages)
      show ?thesis
      proof (cases "length messages = 0")
        case empty: True
        with True Inr "1.prems" show ?thesis
          by (simp add: fetchAndSplit.simps)
      next
        case False
        obtain b2 o2 where sp: "splitPage sp cutoff bl dOld messages bulk old = (b2, o2)"
          by (cases "splitPage sp cutoff bl dOld messages bulk old")
        have rec: "fetchAndSplit ch mx sp cutoff bl dOld (page + 1) (fetched + length messages)
                 (Some (msg_id (last messages))) b2 o2 (seen @ messages) (tick e)
               = (e', Inr (bulk', old', fetched', seen'))"
          using "1.prems" True Inr False sp
          by (simp add: fetchAndSplit.simps[of ch mx sp cutoff bl dOld page fetched lastId bulk old seen e])
        from "1.IH"[OF True Inr False sp[symmetric] rec]
        obtain new where new: "seen' = (seen @ messages) @ new"
          "bulk' = b2 @ filter (\<lambda>m. eligible sp cutoff m \<and> createdAt m > bl) new"
          "old' = o2 @ filter (\<lambda>m. eligible sp cutoff m \<and> \<not> createdAt m > bl \<and> dOld) new"
          by blast
        from sp have "b2 = bulk @ filter (\<lambda>m. eligible sp cutoff m \<and> createdAt m > bl) messages"
          "o2 = old @ filter (\<lambda>m. eligible sp cutoff m \<and> \<not> createdAt m > bl \<and> dOld) messages"
          by (simp_all add: splitPage_filter)
        with new show ?thesis
          by (intro exI[of _ "messages @ new"]) simp
      qed
    qed
  qed
qed

lemma logs_simps [simp]:
  "logs (tick e) = logs e"
  "logs (say l m e) = logs e @ [(l, m)]"
  "logs (request c e) = logs e"
  by (simp_all add: tick_def say_def request_def)

lemma calls_simps [simp]:
  "calls (tick e) = calls e"
  "calls (say l m e) = calls e"
  "calls (request c e) = calls e @ [c]"
  by (simp_all add: tick_def say_def request_def)

lemma fetchAndSplit_eff:
  "fetchAndSplit ch mx sp cutoff bl dOld page fetched lastId bulk old seen e = (e', r)
   \<Longrightarrow> calls e' = calls e \<and> logs e' = logs e"
proof (induction ch mx sp cutoff bl dOld page fetched lastId bulk old seen e
       rule: fetchAndSplit.induct)
  case (1 ch mx sp cutoff bl dOld page fetched lastId bulk old seen e)
  show ?case
  proof (cases "below fetched mx")
    case False
    with "1.prems" show ?thesis
      by (auto simp: fetchAndSplit.simps)
  next
    case True
    show ?thesis
    proof (cases "fetch_page ch page lastId (batchSize mx fetched)")
      case (Inl err)
      with True "1.prems" show ?thesis
        by (auto simp: fetchAndSplit.simps)
    next
      case (Inr messages)
      show ?thesis
      proof (cases "length messages = 0")
        case empty: True
        with True Inr "1.prems" show ?thesis
          by (auto simp: fetchAndSplit.simps)
      next
        case False
        obtain b2 o2 where sp: "splitPage sp cutoff bl dOld messages bulk old = (b2, o2)"
          by (cases "splitPage sp cutoff bl dOld messages bulk old")
        have rec: "fetchAndSplit ch mx sp cutoff bl dOld (page + 1) (fetched + length messages)
                 (Some (msg_id (last messages))) b2 o2 (seen @ messages) (tick e) = (e', r)"
          using "1.prems" True Inr False sp
          by (simp add: fetchAndSplit.simps[of ch mx sp cutoff bl dOld page fetched lastId bulk old seen e])
        from "1.IH"[OF True Inr False sp[symmetric] rec]
        show ?thesis
          by simp
      qed
    qed
  qed
qed

text \<open>What the fetch loop returns does not depend on the lines logged or the requests
  sent before it.\<close>

lemma fetchAndSplit_result:
  "snd (fetchAndSplit ch mx sp cutoff bl dOld page fetched lastId bulk old seen e)
   = snd (fetchAndSplit ch mx sp cutoff bl dOld page fetched lastId bulk old seen e0)"
proof (induction ch mx sp cutoff bl dOld page fetched lastId bulk old seen e arbitrary: e0
       rule: fetchAndSplit.induct)
  case (1 ch mx sp cutoff bl dOld page fetched lastId bulk old seen e)
  show ?case
  proof (cases "below fetched mx")
    case False
    then show ?thesis
      by (simp add: fetchAndSplit.simps)
  next
    case True
    show ?thesis
    proof (cases "fetch_page ch page lastId (batchSize mx fetched)")
      case (Inl err)
      with True show ?thesis
        by (simp add: fetchAndSplit.simps)
    next
      case (Inr messages)
      show ?thesis
      proof (cases "length messages = 0")
        case empty: True
        with True Inr show ?thesis
          by (simp add: fetchAndSplit.simps)
      next
        case False
        obtain b2 o2 where sp: "splitPage sp cutoff bl dOld messages bulk old = (b2, o2)"
          by (cases "splitPage sp cutoff bl dOld messages bulk old")
        from "1.IH"[OF True Inr False sp[symmetric], of "tick e0"]
        show ?thesis
          using True Inr False sp
          by (simp add: fetchAndSplit.simps[of ch mx sp cutoff bl dOld page fetched lastId bulk old seen e]
                fetchAndSplit.simps[of ch mx sp cutoff bl dOld page fetched lastId bulk old seen e0])
      qed
    qed
  qed
qed

lemma scanChannel_eff:
  "scanChannel cfg dOld ch ret e = (e1, r1) \<Longrightarrow> logs e1 = logs e \<and> calls e1 = calls e"
  using fetchAndSplit_eff unfolding scanChannel_def by metis

lemma scanChannel_result:
  "snd (scanChannel cfg dOld ch ret e) = snd (scanChannel cfg dOld ch ret e0)"
  unfolding scanChannel_def by (rule fetchAndSplit_result)

lemma count_list_filter:
  "count_list (filter P xs) m = (if P m then count_list xs m else 0)"
  by (induction xs) auto

lemma scanChannel_lists:
  assumes "snd (scanChannel cfg dOld ch ret e) = Inr (bulk, old, fetched, seen)"
  shows "bulk = filter (\<lambda>m. eligible (skipPinned (discord cfg)) (cutoffDate ret (ch_now ch)) m
                         \<and> createdAt m > ch_now ch - 14 * day_ms) seen
       \<and> old = filter (\<lambda>m. eligible (skipPinned (discord cfg)) (cutoffDate ret (ch_now ch)) m
                         \<and> \<not> createdAt m > ch_now ch - 14 * day_ms \<and> dOld) seen"
proof -
  obtain e1 where "scanChannel cfg dOld ch ret e = (e1, Inr (bulk, old, fetched, seen))"
    using assms by (cases "scanChannel cfg dOld ch ret e") simp
  from fetchAndSplit_lists[OF this[unfolded scanChannel_def]] show ?thesis
    by simp
qed


subsection \<open>Example channels\<close>

definition fresh :: eff where
  "fresh = \<lparr>clock = 0, logs = [], calls = []\<rparr>"

definition scenario_now :: int where
  "scenario_now = 100 * day_ms"

definition listing :: "message list \<Rightarrow> nat option \<Rightarrow> nat \<Rightarrow> string + message list" where
  "listing msgs cursor limit =
     Inr (take limit (case cursor of None \<Rightarrow> msgs
                      | Some k \<Rightarrow> drop 1 (dropWhile (\<lambda>m. msg_id m \<noteq> k) msgs)))"

definition boundary_message :: message where
  "boundary_message = \<lparr>msg_id = 1, createdAt = scenario_now - 14 * day_ms, pinned = False\<rparr>"

definition boundary_channel :: channel where
  "boundary_channel =
     \<lparr>ch_name = ''general'', ch_now = scenario_now, ch_depth = 10,
      ch_fetch = listing [boundary_message],
      ch_bulkDelete = (\<lambda>b. Inr (length b)), ch_delete = (\<lambda>m. None)\<rparr>"


subsection \<open>The partition of the eligible messages\<close>

text \<open>
  C4 as amended. For every fetched message that is eligible (older than the retention
  cutoff, and not pinned while pinned messages are skipped): it is in the bulk-eligible
  list exactly when its age is below 14 days; it is in the individually-eligible list
  exactly when its age is at least 14 days and the category's \<open>deleteOld\<close> setting is
  not false; it is never in both; and the two lists together hold it as often as it was
  fetched when \<open>deleteOld\<close> is not false or its age is below 14 days, and not at all
  otherwise. A message exactly 14 days old is individually-eligible, or in neither list
  when \<open>deleteOld\<close> is false.
\<close>

theorem eligible_message_partition:
  assumes "snd (scanChannel cfg dOld ch ret e) = Inr (bulk, old, fetched, seen)"
    and "m \<in> set seen"
    and "date_before (createdAt m) (cutoffDate ret (ch_now ch))"
    and "\<not> (pinned m \<and> skipPinned (discord cfg))"
  shows "(m \<in> set bulk \<longleftrightarrow> ch_now ch - createdAt m < 14 * day_ms)
       \<and> (m \<in> set old \<longleftrightarrow> dOld \<and> 14 * day_ms \<le> ch_now ch - createdAt m)
       \<and> \<not> (m \<in> set bulk \<and> m \<in> set old)
       \<and> count_list bulk m + count_list old m =
           (if dOld \<or> ch_now ch - createdAt m < 14 * day_ms then count_list seen m else 0)"
proof -
  have el: "eligible (skipPinned (discord cfg)) (cutoffDate ret (ch_now ch)) m"
    using assms(3,4) by (simp add: eligible_def)
  note lists = scanChannel_lists[OF assms(1)]
  have b: "m \<in> set bulk \<longleftrightarrow> ch_now ch - createdAt m < 14 * day_ms"
    using lists el assms(2) by auto
  have o: "m \<in> set old \<longleftrightarrow> dOld \<and> 14 * day_ms \<le> ch_now ch - createdAt m"
    using lists el assms(2) by auto
  have cb: "count_list bulk m = (if ch_now ch - createdAt m < 14 * day_ms then count_list seen m else 0)"
    using lists el by (auto simp: count_list_filter)
  have co: "count_list old m = (if dOld \<and> 14 * day_ms \<le> ch_now ch - createdAt m then count_list seen m else 0)"
    using lists el by (auto simp: count_list_filter)
  show ?thesis
    using b o cb co by auto
qed

text \<open>
  C4 as stated fails: with \<open>deleteOld\<close> false for the category, a fetched message exactly
  14 days old, older than the 7-day cutoff and not pinned, is in neither list.
\<close>

theorem deleteOld_false_drops_boundary_message:
  "snd (scanChannel example_config False boundary_channel (JNum 7) fresh) =
     Inr ([], [], 1, [boundary_message])
   \<and> date_before (createdAt boundary_message) (cutoffDate (JNum 7) (ch_now boundary_channel))
   \<and> \<not> pinned boundary_message
   \<and> ch_now boundary_channel - createdAt boundary_message = 14 * day_ms"
  by code_simp

theorem eligible_message_partition_witness:
  "snd (scanChannel example_config True boundary_channel (JNum 7) fresh) =
     Inr ([], [boundary_message], 1, [boundary_message])
   \<and> boundary_message \<in> set [boundary_message]
   \<and> boundary_message \<notin> set ([] :: message list)
   \<and> count_list ([] :: message list) boundary_message + count_list [boundary_message] boundary_message = 1"
proof -
  have scan: "snd (scanChannel example_config True boundary_channel (JNum 7) fresh) =
     Inr ([], [boundary_message], 1, [boundary_message])"
    by code_simp
  have mem: "boundary_message \<in> set [boundary_message]"
    by simp
  have el: "date_before (createdAt boundary_message) (cutoffDate (JNum 7) (ch_now boundary_channel))"
    by code_simp
  have pin: "\<not> (pinned boundary_message \<and> skipPinned (discord example_config))"
    by code_simp
  show ?thesis
    using eligible_message_partition [OF scan mem el pin] scan
    by simp
qed


subsection \<open>Properties of the two deletion phases\<close>






text \<open>The requests of a bulk phase in which no call throws: one per batch of 100.\<close>

function batches :: "message list \<Rightarrow> api_call list" where
  "batches ms =
     (if ms = [] then []
      else (if length (take 100 ms) = 1 then BatchOfOneDelete (hd ms)
            else BulkDelete (take 100 ms)) # batches (drop 100 ms))"
  by pat_completeness auto
termination
  by (relation "measure length") auto

declare batches.simps [simp del]

lemma batches_Nil [simp]: "batches [] = []"
  by (simp add: batches.simps)

lemma batches_step:
  "ms \<noteq> [] \<Longrightarrow>
   batches ms = (if length (take 100 ms) = 1 then BatchOfOneDelete (hd ms)
                 else BulkDelete (take 100 ms)) # batches (drop 100 ms)"
  by (subst batches.simps) simp






lemma bulkPhase_sent:
  "bulkPhase ch ms i d e = (e', r) \<Longrightarrow>
     logs e' = logs e
     \<and> (\<exists>k \<le> length (batches (drop i ms)). calls e' = calls e @ take k (batches (drop i ms)))
     \<and> (\<forall>x. r = Inr x \<longrightarrow> calls e' = calls e @ batches (drop i ms))"
proof (induction ch ms i d e rule: bulkPhase.induct)
  case (1 ch ms i d e)
  show ?case
  proof (cases "i < length ms")
    case False
    with "1.prems" show ?thesis
      by (auto simp: bulkPhase.simps)
  next
    case True
    define batch where "batch = take 100 (drop i ms)"
    define c where "c = (if length batch = 1 then BatchOfOneDelete (hd batch) else BulkDelete batch)"
    have ne: "drop i ms \<noteq> []"
      using True by simp
    have hd_eq: "hd batch = hd (drop i ms)"
      using ne unfolding batch_def by (cases "drop i ms") auto
    have plan: "batches (drop i ms) = c # batches (drop (i + 100) ms)"
      using batches_step[OF ne] hd_eq unfolding c_def batch_def by (simp add: add.commute)
    show ?thesis
    proof (cases "length batch = 1")
      case one: True
      show ?thesis
      proof (cases "ch_delete ch (hd batch)")
        case None
        have rec: "bulkPhase ch ms (i + 100) (d + 1) (tick (request (BatchOfOneDelete (hd batch)) e)) = (e', r)"
          using "1.prems" True one None
          by (simp add: bulkPhase.simps[of ch ms i d e] batch_def Let_def)
        note ih = "1.IH"(1)[OF True batch_def one None rec]
        from ih obtain k where k: "k \<le> length (batches (drop (i + 100) ms))"
          "calls e' = calls (tick (request (BatchOfOneDelete (hd batch)) e)) @ take k (batches (drop (i + 100) ms))"
          by blast
        have "calls e' = calls e @ take (Suc k) (batches (drop i ms))"
          using k one unfolding plan c_def by simp
        moreover have "Suc k \<le> length (batches (drop i ms))"
          using k unfolding plan by simp
        ultimately have ex: "\<exists>k \<le> length (batches (drop i ms)). calls e' = calls e @ take k (batches (drop i ms))"
          by blast
        have all: "\<forall>x. r = Inr x \<longrightarrow> calls e' = calls e @ batches (drop i ms)"
          using ih one unfolding plan c_def by simp
        from ih ex all show ?thesis
          by simp
      next
        case (Some err)
        have "e' = tick (request (BatchOfOneDelete (hd batch)) e)" "r = Inl err"
          using "1.prems" True one Some
          by (simp_all add: bulkPhase.simps[of ch ms i d e] batch_def Let_def)
        then have "logs e' = logs e" "calls e' = calls e @ take 1 (batches (drop i ms))"
          "\<forall>x. r \<noteq> Inr x"
          using one unfolding plan c_def by simp_all
        moreover have "1 \<le> length (batches (drop i ms))"
          unfolding plan by simp
        ultimately show ?thesis
          by blast
      qed
    next
      case more: False
      show ?thesis
      proof (cases "ch_bulkDelete ch batch")
        case (Inl err)
        have "e' = tick (request (BulkDelete batch) e)" "r = Inl err"
          using "1.prems" True more Inl
          by (simp_all add: bulkPhase.simps[of ch ms i d e] batch_def Let_def)
        then have "logs e' = logs e" "calls e' = calls e @ take 1 (batches (drop i ms))"
          "\<forall>x. r \<noteq> Inr x"
          using more unfolding plan c_def by simp_all
        moreover have "1 \<le> length (batches (drop i ms))"
          unfolding plan by simp
        ultimately show ?thesis
          by blast
      next
        case (Inr n)
        have rec: "bulkPhase ch ms (i + 100) (d + n) (tick (request (BulkDelete batch) e)) = (e', r)"
          using "1.prems" True more Inr
          by (simp add: bulkPhase.simps[of ch ms i d e] batch_def Let_def)
        note ih = "1.IH"(2)[OF True batch_def more Inr rec]
        from ih obtain k where k: "k \<le> length (batches (drop (i + 100) ms))"
          "calls e' = calls (tick (request (BulkDelete batch) e)) @ take k (batches (drop (i + 100) ms))"
          by blast
        have "calls e' = calls e @ take (Suc k) (batches (drop i ms))"
          using k more unfolding plan c_def by simp
        moreover have "Suc k \<le> length (batches (drop i ms))"
          using k unfolding plan by simp
        ultimately have ex: "\<exists>k \<le> length (batches (drop i ms)). calls e' = calls e @ take k (batches (drop i ms))"
          by blast
        have all: "\<forall>x. r = Inr x \<longrightarrow> calls e' = calls e @ batches (drop i ms)"
          using ih more unfolding plan c_def by simp
        from ih ex all show ?thesis
          by simp
      qed
    qed
  qed
qed

text \<open>What the bulk phase returns does not depend on the lines logged or the requests
  sent before it.\<close>

lemma bulkPhase_result:
  "snd (bulkPhase ch ms i d e) = snd (bulkPhase ch ms i d e0)"
proof (induction ch ms i d e arbitrary: e0 rule: bulkPhase.induct)
  case (1 ch ms i d e)
  show ?case
  proof (cases "i < length ms")
    case False
    then show ?thesis
      by (simp add: bulkPhase.simps)
  next
    case True
    define batch where "batch = take 100 (drop i ms)"
    show ?thesis
    proof (cases "length batch = 1")
      case one: True
      show ?thesis
      proof (cases "ch_delete ch (hd batch)")
        case None
        from "1.IH"(1)[OF True batch_def one None, of "tick (request (BatchOfOneDelete (hd batch)) e0)"]
        show ?thesis
          using True one None
          by (simp add: bulkPhase.simps[of ch ms i d e] bulkPhase.simps[of ch ms i d e0]
                batch_def[symmetric] Let_def)
      next
        case (Some err)
        then show ?thesis
          using True one
          by (simp add: bulkPhase.simps[of ch ms i d e] bulkPhase.simps[of ch ms i d e0]
                batch_def[symmetric] Let_def)
      qed
    next
      case more: False
      show ?thesis
      proof (cases "ch_bulkDelete ch batch")
        case (Inl err)
        then show ?thesis
          using True more
          by (simp add: bulkPhase.simps[of ch ms i d e] bulkPhase.simps[of ch ms i d e0]
                batch_def[symmetric] Let_def)
      next
        case (Inr n)
        from "1.IH"(2)[OF True batch_def more Inr, of "tick (request (BulkDelete batch) e0)"]
        show ?thesis
          using True more Inr
          by (simp add: bulkPhase.simps[of ch ms i d e] bulkPhase.simps[of ch ms i d e0]
                batch_def[symmetric] Let_def)
      qed
    qed
  qed
qed


text \<open>The warnings of an individual phase that attempts the messages \<open>ms\<close>: one for each
  message whose delete throws.\<close>

fun failure_lines :: "string \<Rightarrow> channel \<Rightarrow> message list \<Rightarrow> log_entry list" where
  "failure_lines catName ch [] = []"
| "failure_lines catName ch (m # ms) =
     (case ch_delete ch m of
        None \<Rightarrow> []
      | Some err \<Rightarrow> [(WARN, DeleteFailed catName (ch_name ch) (msg_id m) err)])
     @ failure_lines catName ch ms"

lemma oldPhase_sent:
  "oldPhase cancelAt ch cat ms d e = (d', e') \<Longrightarrow>
   \<exists>k \<le> length ms.
      calls e' = calls e @ map OldDelete (take k ms)
    \<and> logs e' = logs e @ failure_lines cat ch (take k ms)
    \<and> d' = d + length (filter (\<lambda>m. ch_delete ch m = None) (take k ms))
    \<and> (cancelAt = None \<longrightarrow> k = length ms)"
proof (induction ms arbitrary: d e)
  case Nil
  then show ?case by simp
next
  case (Cons m ms)
  show ?case
  proof (cases "cleanupCancelled cancelAt e")
    case True
    then have "d' = d" "e' = e" "cancelAt \<noteq> None"
      using Cons.prems by (auto simp: cleanupCancelled_def split: option.splits)
    then show ?thesis
      by (intro exI[of _ 0]) simp
  next
    case False
    show ?thesis
    proof (cases "ch_delete ch m")
      case None
      have "oldPhase cancelAt ch cat ms (d + 1) (tick (tick (request (OldDelete m) e))) = (d', e')"
        using Cons.prems False None by simp
      from Cons.IH[OF this] obtain k where k: "k \<le> length ms"
        "calls e' = calls (tick (tick (request (OldDelete m) e))) @ map OldDelete (take k ms)"
        "logs e' = logs (tick (tick (request (OldDelete m) e))) @ failure_lines cat ch (take k ms)"
        "d' = d + 1 + length (filter (\<lambda>m. ch_delete ch m = None) (take k ms))"
        "cancelAt = None \<longrightarrow> k = length ms"
        by blast
      then show ?thesis
        using None by (intro exI[of _ "Suc k"]) simp
    next
      case (Some err)
      have "oldPhase cancelAt ch cat ms d
              (tick (say WARN (DeleteFailed cat (ch_name ch) (msg_id m) err)
                 (tick (request (OldDelete m) e)))) = (d', e')"
        using Cons.prems False Some by simp
      from Cons.IH[OF this] obtain k where k: "k \<le> length ms"
        "calls e' = calls (tick (say WARN (DeleteFailed cat (ch_name ch) (msg_id m) err)
                 (tick (request (OldDelete m) e)))) @ map OldDelete (take k ms)"
        "logs e' = logs (tick (say WARN (DeleteFailed cat (ch_name ch) (msg_id m) err)
                 (tick (request (OldDelete m) e)))) @ failure_lines cat ch (take k ms)"
        "d' = d + length (filter (\<lambda>m. ch_delete ch m = None) (take k ms))"
        "cancelAt = None \<longrightarrow> k = length ms"
        by blast
      then show ?thesis
        using Some by (intro exI[of _ "Suc k"]) simp
    qed
  qed
qed

text \<open>The two lists a scan has built (empty when the scan threw).\<close>

definition bulkDeletableOf ::
  "eff \<times> (string + message list \<times> message list \<times> nat \<times> message list) \<Rightarrow> message list" where
  "bulkDeletableOf r = (case snd r of Inr (bulk, old, fetched, seen) \<Rightarrow> bulk | Inl err \<Rightarrow> [])"

definition oldDeletableOf ::
  "eff \<times> (string + message list \<times> message list \<times> nat \<times> message list) \<Rightarrow> message list" where
  "oldDeletableOf r = (case snd r of Inr (bulk, old, fetched, seen) \<Rightarrow> old | Inl err \<Rightarrow> [])"



text \<open>The five ways through the body of the \<open>try\<close>.\<close>

lemma scanAndDelete_scan_failed:
  "scanChannel cfg dOld ch ret e = (e1, Inl err)
   \<Longrightarrow> scanAndDelete cfg cancelAt dry cat dOld ch ret e = (e1, Inl err)"
  by (simp add: scanAndDelete_def)

lemma scanAndDelete_nothing:
  "scanChannel cfg dOld ch ret e = (e1, Inr ([], [], fetched, seen))
   \<Longrightarrow> scanAndDelete cfg cancelAt dry cat dOld ch ret e
       = (say INFO (NothingToDelete cat (ch_name ch) fetched) e1,
          Inr (if dry then math_min 0 (maxOldDeletesPerChannel (discord cfg)) else Some 0, 0))"
  by (simp add: scanAndDelete_def Let_def option.map_ident cong: option.map_cong)

lemma scanAndDelete_dry:
  "scanChannel cfg dOld ch ret e = (e1, Inr (bulk, old, fetched, seen))
   \<Longrightarrow> bulk \<noteq> [] \<or> old \<noteq> []
   \<Longrightarrow> scanAndDelete cfg cancelAt True cat dOld ch ret e
       = (say INFO (DryRunWouldDelete cat (ch_name ch)
                     (length bulk + length (slice0 (maxOldDeletesPerChannel (discord cfg)) old))
                     (length bulk) (length (slice0 (maxOldDeletesPerChannel (discord cfg)) old))
                     (excess (length old) (maxOldDeletesPerChannel (discord cfg)))) e1,
          Inr (map_option (\<lambda>k. length bulk + k)
                 (math_min (length old) (maxOldDeletesPerChannel (discord cfg))),
               length bulk + length (slice0 (maxOldDeletesPerChannel (discord cfg)) old)))"
  by (auto simp: scanAndDelete_def Let_def)

lemma scanAndDelete_bulk_failed:
  "scanChannel cfg dOld ch ret e = (e1, Inr (bulk, old, fetched, seen))
   \<Longrightarrow> bulk \<noteq> [] \<or> old \<noteq> []
   \<Longrightarrow> bulkPhase ch bulk 0 0 e1 = (e2, Inl err)
   \<Longrightarrow> scanAndDelete cfg cancelAt False cat dOld ch ret e = (e2, Inl err)"
  by (auto simp: scanAndDelete_def Let_def)

lemma scanAndDelete_live:
  "scanChannel cfg dOld ch ret e = (e1, Inr (bulk, old, fetched, seen))
   \<Longrightarrow> bulk \<noteq> [] \<or> old \<noteq> []
   \<Longrightarrow> bulkPhase ch bulk 0 0 e1 = (e2, Inr d2)
   \<Longrightarrow> oldPhase cancelAt ch cat (slice0 (maxOldDeletesPerChannel (discord cfg)) old) d2 e2 = (d3, e3)
   \<Longrightarrow> scanAndDelete cfg cancelAt False cat dOld ch ret e
       = (say INFO (Deleted cat (ch_name ch) d3)
            (case maxOldDeletesPerChannel (discord cfg) of
               Finite n \<Rightarrow> (if length old > n
                            then say WARN (OldRemain cat (ch_name ch) (length old - n) n) e3
                            else e3)
             | _ \<Rightarrow> e3),
          Inr (Some d3, d3))"
  by (auto simp: scanAndDelete_def Let_def)



lemma take_planned:
  "k \<le> length xs \<Longrightarrow> take k (xs @ ys) = take k xs"
  by simp











subsection \<open>The cap and the dry-run count at concrete channels\<close>



text \<open>Small channels: messages 10 days old (\<open>young\<close>) and 20 days old (\<open>aged\<close>); a
  channel with one young and three aged messages; a channel with two young and three
  aged messages whose bulk delete is refused; a channel with two young and one aged
  message whose single deletes are refused. A configuration with a cap of 2.\<close>

definition young :: "nat \<Rightarrow> message" where
  "young i = \<lparr>msg_id = i, createdAt = scenario_now - 10 * day_ms, pinned = False\<rparr>"

definition aged :: "nat \<Rightarrow> message" where
  "aged i = \<lparr>msg_id = i, createdAt = scenario_now - 20 * day_ms, pinned = False\<rparr>"

definition mixed_channel :: channel where
  "mixed_channel =
     \<lparr>ch_name = ''general'', ch_now = scenario_now, ch_depth = 10,
      ch_fetch = listing [young 1, aged 2, aged 3, aged 4],
      ch_bulkDelete = (\<lambda>b. Inr (length b)), ch_delete = (\<lambda>m. None)\<rparr>"











section \<open>A cleanup run\<close>

text \<open>\<open>Object.keys(entry)[0]\<close> for a non-null value of type object.\<close>

fun first_key :: "jsval \<Rightarrow> string option" where
  "first_key (JObj kvs) = (case own_order kvs of [] \<Rightarrow> None | kv # rest \<Rightarrow> Some (fst kv))"
| "first_key (JArr (x # xs)) = Some ''0''"
| "first_key v = None"

text \<open>The channel names listed for a category (the strings a channel name can be found
  equal to; an entry without a first key adds no name).\<close>

fun entryNames :: "jsval list \<Rightarrow> string list" where
  "entryNames [] = []"
| "entryNames (JStr n # es) = n # entryNames es"
| "entryNames (e # es) =
     (if typeof e = ''object'' \<and> e \<noteq> JNull
      then (case first_key e of Some k \<Rightarrow> k # entryNames es | None \<Rightarrow> entryNames es)
      else entryNames es)"

definition getConfiguredChannels :: "realm \<Rightarrow> config \<Rightarrow> string \<Rightarrow> string list" where
  "getConfiguredChannels R cfg categoryName =
     (case category_of R cfg categoryName of
        None \<Rightarrow> []
      | Some cat \<Rightarrow>
          (if \<not> truthy_ref cat then []
           else case cat_field R cat Channels of
                  Some (JArr es) \<Rightarrow> entryNames es
                | _ \<Rightarrow> []))"

text \<open>A filter given as an option of the run applies when it is a non-empty string.\<close>

definition filtered_out :: "string option \<Rightarrow> string \<Rightarrow> bool" where
  "filtered_out f name = (case f of None \<Rightarrow> False | Some s \<Rightarrow> s \<noteq> [] \<and> name \<noteq> s)"

record category_stats =
  cs_processed :: nat
  cs_purged :: nat
  cs_errors :: nat
  cs_channels :: "channel_result list"

record run_state =
  totalProcessed :: nat
  totalPurged :: nat
  totalSkipped :: nat
  totalErrors :: nat
  categoryStats :: "(string \<times> category_stats) list"
  embeds :: "string list"
  fx :: eff

text \<open>
  The loop over the channels of one category. Its own state is the list of channel
  results, the category's error flag and the channel index. Retention is resolved
  outside the \<open>try\<close> of the channel: when resolution throws, the loop ends with the
  error (the third component of the result), after the channel has been counted as
  processed and its scan announced.
\<close>

fun channelLoop ::
  "realm \<Rightarrow> config \<Rightarrow> nat option \<Rightarrow> bool \<Rightarrow> string option \<Rightarrow> string \<Rightarrow> string list \<Rightarrow> nat \<Rightarrow> bool
   \<Rightarrow> channel list \<Rightarrow> channel_result list \<times> bool \<times> nat \<Rightarrow> run_state
   \<Rightarrow> (channel_result list \<times> bool \<times> nat) \<times> run_state \<times> string option" where
  "channelLoop R cfg cancelAt effectiveDryRun channelFilter catName allowedChannels allowedCount delOld
       [] cs st = (cs, st, None)"
| "channelLoop R cfg cancelAt effectiveDryRun channelFilter catName allowedChannels allowedCount delOld
       (ch # rest) (channelResults, catErrors, channelIndex) st =
     (if cleanupCancelled cancelAt (fx st)
      then ((channelResults, catErrors, channelIndex), st, None)
      else if ch_name ch \<notin> set allowedChannels
      then channelLoop R cfg cancelAt effectiveDryRun channelFilter catName allowedChannels
             allowedCount delOld rest (channelResults, catErrors, channelIndex)
             (st\<lparr>totalSkipped := totalSkipped st + 1\<rparr>)
      else if filtered_out channelFilter (ch_name ch)
      then channelLoop R cfg cancelAt effectiveDryRun channelFilter catName allowedChannels
             allowedCount delOld rest (channelResults, catErrors, channelIndex) st
      else (let e1 = say INFO (Scanning catName (ch_name ch) (channelIndex + 1) allowedCount) (fx st)
            in case getRetention R cfg catName (ch_name ch) of
                 Inl err \<Rightarrow>
                   ((channelResults, catErrors, channelIndex + 1),
                    st\<lparr>totalProcessed := totalProcessed st + 1, fx := e1\<rparr>, Some err)
               | Inr (retention, warnings) \<Rightarrow>
                   (let e2 = e1\<lparr>logs := logs e1 @ warnings\<rparr>;
                        retentionSource = getRetentionSource R cfg catName (ch_name ch)
                    in if retention = JNum (-1)
                       then channelLoop R cfg cancelAt effectiveDryRun channelFilter catName
                              allowedChannels allowedCount delOld rest
                              (channelResults @ [SkippedResult (ch_name ch)], catErrors,
                               channelIndex + 1)
                              (st\<lparr>totalProcessed := totalProcessed st + 1, fx := e2\<rparr>)
                       else (case cleanChannel cfg cancelAt effectiveDryRun catName delOld ch
                                    retention retentionSource e2 of
                               (result, added, failed, e3) \<Rightarrow>
                                 channelLoop R cfg cancelAt effectiveDryRun channelFilter catName
                                   allowedChannels allowedCount delOld rest
                                   (channelResults @ [result], catErrors \<or> failed,
                                    channelIndex + 1)
                                   (st\<lparr>totalProcessed := totalProcessed st + 1,
                                       totalPurged := totalPurged st + added,
                                       totalErrors := totalErrors st + (if failed then 1 else 0),
                                       fx := tick e3\<rparr>)))))"

text \<open>An error message counts in the per-category statistics when it is a non-empty
  string.\<close>

definition has_error :: "channel_result \<Rightarrow> bool" where
  "has_error r = (case cr_error r of None \<Rightarrow> False | Some err \<Rightarrow> err \<noteq> [])"

definition collectStats :: "channel_result list \<Rightarrow> category_stats" where
  "collectStats channelResults =
     \<lparr>cs_processed = length channelResults,
      cs_purged = sum_list (map cr_purged channelResults),
      cs_errors = length (filter has_error channelResults),
      cs_channels = channelResults\<rparr>"

text \<open>
  The assignment \<open>obj[key] = value\<close> on a plain object given by its own properties: an
  existing property is replaced in place, a new one is created last. Under the name
  \<open>__proto__\<close>, when the object has no own property of that name, the assignment
  reaches the accessor of the object prototype and creates no property.
\<close>

definition assign :: "string \<Rightarrow> 'v \<Rightarrow> (string \<times> 'v) list \<Rightarrow> (string \<times> 'v) list" where
  "assign k v m =
     (if k \<in> fst ` set m then map (\<lambda>(k', v'). if k' = k then (k', v) else (k', v')) m
      else if k = ''__proto__'' then m
      else m @ [(k, v)])"

text \<open>
  The summary of a category for the notification is built when the category has a purge
  or an error. Building it calls \<open>replace\<close> on the colour setting (or on its default,
  when the setting is falsy): for a setting that is truthy and not a string that call
  throws. Of the summary itself only the category name is kept.
\<close>

definition replace_error :: string where
  "replace_error = ''(config.webhooks?.cleanupColor || \"#238636\").replace is not a function''"

definition buildCategoryEmbed :: "config \<Rightarrow> string \<Rightarrow> string + string" where
  "buildCategoryEmbed cfg catName =
     (if truthy (cleanupColor cfg) \<and> typeof (cleanupColor cfg) \<noteq> ''string''
      then Inl replace_error else Inr catName)"

text \<open>The loop over the categories found on the platform; the second component of the
  result is the error thrown out of it, if any.\<close>

fun categoryLoop ::
  "realm \<Rightarrow> config \<Rightarrow> nat option \<Rightarrow> bool \<Rightarrow> string option \<Rightarrow> string option
   \<Rightarrow> (string \<times> channel list) list \<Rightarrow> run_state \<Rightarrow> run_state \<times> string option" where
  "categoryLoop R cfg cancelAt effectiveDryRun categoryFilter channelFilter [] st = (st, None)"
| "categoryLoop R cfg cancelAt effectiveDryRun categoryFilter channelFilter
       ((catName, chans) # rest) st =
     (if cleanupCancelled cancelAt (fx st)
      then (st\<lparr>fx := say INFO CleanupCancelledByUser (fx st)\<rparr>, None)
      else if \<not> isEnabled R cfg catName
      then categoryLoop R cfg cancelAt effectiveDryRun categoryFilter channelFilter rest
             (st\<lparr>totalSkipped := totalSkipped st + length chans\<rparr>)
      else if filtered_out categoryFilter catName
      then categoryLoop R cfg cancelAt effectiveDryRun categoryFilter channelFilter rest st
      else (case category_of R cfg catName of
              None \<Rightarrow> categoryLoop R cfg cancelAt effectiveDryRun categoryFilter channelFilter rest st
            | Some cat \<Rightarrow>
                (let allowedChannels = getConfiguredChannels R cfg catName;
                     delOld = (cat_field R cat DeleteOld \<noteq> Some (JBool False));
                     allowedCount = length (filter (\<lambda>c. ch_name c \<in> set allowedChannels) chans);
                     st1 = st\<lparr>fx := say INFO (ProcessingCategory catName allowedCount) (fx st)\<rparr>
                 in case channelLoop R cfg cancelAt effectiveDryRun channelFilter catName
                           allowedChannels allowedCount delOld chans ([], False, 0) st1 of
                      (cs, st2, Some err) \<Rightarrow> (st2, Some err)
                    | ((channelResults, catErrors, channelIndex), st2, None) \<Rightarrow>
                        (let st3 = st2\<lparr>categoryStats :=
                                         assign catName (collectStats channelResults)
                                           (categoryStats st2)\<rparr>;
                             hasPurged = (\<exists>r \<in> set channelResults. cr_purged r > 0)
                         in if hasPurged \<or> catErrors
                            then (case buildCategoryEmbed cfg catName of
                                    Inl err \<Rightarrow> (st3, Some err)
                                  | Inr summary \<Rightarrow>
                                      categoryLoop R cfg cancelAt effectiveDryRun categoryFilter
                                        channelFilter rest (st3\<lparr>embeds := embeds st3 @ [summary]\<rparr>))
                            else categoryLoop R cfg cancelAt effectiveDryRun categoryFilter
                                   channelFilter rest st3))))"

subsection \<open>The statistics store\<close>

text \<open>The report of a run, as handed to \<open>persistStats\<close> and emitted as the
  \<open>cleanup-complete\<close> event. Wall-clock fields (timestamp, duration) are left out.\<close>

record run_report =
  rr_error :: "string option"
  rr_totalProcessed :: nat
  rr_totalPurged :: nat
  rr_totalErrors :: nat
  rr_dryRun :: bool
  rr_trigger :: string
  rr_cancelled :: "bool option"
  rr_categories :: "(string \<times> category_stats) list"

record history_entry =
  he_purged :: nat
  he_errors :: nat
  he_dryRun :: bool
  he_trigger :: string
  he_categories :: "(string \<times> nat \<times> nat) list"

record lifetime_totals =
  lt_totalRuns :: nat
  lt_totalPurged :: nat
  lt_totalErrors :: nat

record stats_store =
  lastRun :: "run_report option"
  lastLiveRun :: "run_report option"
  history :: "history_entry list"
  lifetime :: "lifetime_totals option"
  channelTotals :: "(string \<times> nat) list"
  categoryTotals :: "(string \<times> nat) list"

definition new_store :: stats_store where
  "new_store = \<lparr>lastRun = None, lastLiveRun = None, history = [], lifetime = None,
                 channelTotals = [], categoryTotals = []\<rparr>"

definition add_total :: "string \<Rightarrow> nat \<Rightarrow> (string \<times> nat) list \<Rightarrow> (string \<times> nat) list" where
  "add_total k n m = assign k ((case map_of m k of None \<Rightarrow> 0 | Some v \<Rightarrow> v) + n) m"

fun add_channel_totals ::
  "string \<Rightarrow> channel_result list \<Rightarrow> (string \<times> nat) list \<Rightarrow> (string \<times> nat) list" where
  "add_channel_totals catName [] m = m"
| "add_channel_totals catName (PurgedResult n r s (Some k) # rs) m =
     add_channel_totals catName rs (if k > 0 then add_total (catName @ ''/'' @ n) k m else m)"
| "add_channel_totals catName (r # rs) m = add_channel_totals catName rs m"

fun add_run_totals ::
  "(string \<times> category_stats) list \<Rightarrow> (string \<times> nat) list \<times> (string \<times> nat) list
   \<Rightarrow> (string \<times> nat) list \<times> (string \<times> nat) list" where
  "add_run_totals [] (cht, cat) = (cht, cat)"
| "add_run_totals ((catName, cs) # rest) (cht, cat) =
     add_run_totals rest
       (add_channel_totals catName (cs_channels cs) cht, add_total catName (cs_purged cs) cat)"

definition prune :: "nat \<Rightarrow> (string \<times> nat) list \<Rightarrow> (string \<times> nat) list" where
  "prune n m =
     (if length m > n then take n (sort_key (\<lambda>kv. - int (snd kv)) (own_order m)) else m)"

text \<open>\<open>persistStats\<close> on the content of the statistics file (absent before the first
  write). A failure to read or write the file is caught and logged there; it is not
  modelled. (The running total kept for a category is read by the category's name; for
  a category named like a member of the object prototype that read is not modelled.)\<close>

definition persistStats :: "run_report \<Rightarrow> stats_store option \<Rightarrow> stats_store option" where
  "persistStats run file =
     (let data = (case file of None \<Rightarrow> new_store | Some d \<Rightarrow> d);
          data1 = data\<lparr>lastRun := Some run\<rparr>;
          data2 = (if \<not> rr_dryRun run then data1\<lparr>lastLiveRun := Some run\<rparr> else data1);
          entry = \<lparr>he_purged = rr_totalPurged run, he_errors = rr_totalErrors run,
                   he_dryRun = rr_dryRun run,
                   he_trigger = (if rr_trigger run = [] then ''schedule'' else rr_trigger run),
                   he_categories =
                     map (\<lambda>(c, cs). (c, cs_purged cs, cs_errors cs))
                       (own_order (rr_categories run))\<rparr>;
          data3 = data2\<lparr>history := take 90 (entry # history data2)\<rparr>
      in if rr_dryRun run then Some data3
         else (let lt = (case lifetime data3 of
                           None \<Rightarrow> \<lparr>lt_totalRuns = 0, lt_totalPurged = 0, lt_totalErrors = 0\<rparr>
                         | Some l \<Rightarrow> l);
                   lt' = \<lparr>lt_totalRuns = lt_totalRuns lt + 1,
                          lt_totalPurged = lt_totalPurged lt + rr_totalPurged run,
                          lt_totalErrors = lt_totalErrors lt + rr_totalErrors run\<rparr>;
                   totals = add_run_totals (own_order (rr_categories run))
                              (channelTotals data3, categoryTotals data3)
               in Some (data3\<lparr>lifetime := Some lt',
                              channelTotals := prune 200 (fst totals),
                              categoryTotals := prune 100 (snd totals)\<rparr>)))"

subsection \<open>The run\<close>

record options =
  forceDryRun :: bool
  forceLive :: bool
  categoryFilter :: "string option"
  channelFilter :: "string option"
  trigger_label :: string

text \<open>
  The guild as the run finds it: whether refreshing its channels throws; what
  auto-discovery makes of the configuration and of the realm (taken as a parameter: any
  function of them, possibly throwing); and the categories with their text channels, in
  the order of iteration.
\<close>

record guild =
  g_refresh :: "string option"
  g_discover :: "realm \<Rightarrow> config \<Rightarrow> string + realm \<times> config"
  g_categoryChannelMap :: "(string \<times> channel list) list"

text \<open>
  What the run meets outside the process: the configuration read back from the file
  (none when it cannot be read or parsed: the previous configuration is kept), the guild
  (none when it is not in the client's cache) and the suspension point at which a
  cancellation request arrives, if any.
\<close>

record world =
  w_reload :: "config option"
  w_guild :: "guild option"
  w_cancelAt :: "nat option"

record bot =
  b_config :: config
  b_realm :: realm
  b_cleanupRunning :: bool
  b_stats :: "stats_store option"
  b_events :: "run_report list"
  b_fx :: eff

datatype run_outcome =
    NotStarted
  | Aborted
  | Threw string
  | Completed run_report

text \<open>
  \<open>runCleanup\<close>. The counters start at zero and the suspension points are counted from
  the start of the run. The event of an aborted run carries the message
  \<open>Guild <id> not found\<close>, written here without the id. An error thrown out of the
  loops leaves the function through its \<open>finally\<close>: the running flag is released, and
  nothing after the loops is done. The sending of the notification and the heartbeat are
  left out: the first catches and logs its own failures, neither changes the outcome of
  the run.
\<close>

definition start_state :: "eff \<Rightarrow> run_state" where
  "start_state e =
     \<lparr>totalProcessed = 0, totalPurged = 0, totalSkipped = 0, totalErrors = 0,
      categoryStats = [], embeds = [], fx = e\<rparr>"

definition runCleanup :: "options \<Rightarrow> world \<Rightarrow> bot \<Rightarrow> bot \<times> run_outcome" where
  "runCleanup opts w b =
     (if b_cleanupRunning b
      then (b\<lparr>b_fx := say WARN AlreadyRunningSkipping (b_fx b)\<rparr>, NotStarted)
      else
        (let cfg = (case w_reload w of Some c \<Rightarrow> c | None \<Rightarrow> b_config b);
             effectiveDryRun = (if forceLive opts then False else (dryRun cfg \<or> forceDryRun opts));
             e00 = (case w_reload w of
                      Some c \<Rightarrow> (b_fx b)\<lparr>clock := 0\<rparr>
                    | None \<Rightarrow> say ERROR ConfigReloadFailed ((b_fx b)\<lparr>clock := 0\<rparr>));
             e0 = say INFO (StartingCleanup effectiveDryRun) e00
         in case w_guild w of
              None \<Rightarrow>
                (b\<lparr>b_config := cfg, b_cleanupRunning := False,
                   b_events := b_events b @
                     [\<lparr>rr_error = Some ''Guild not found'', rr_totalProcessed = 0,
                       rr_totalPurged = 0, rr_totalErrors = 1, rr_dryRun = effectiveDryRun,
                       rr_trigger = trigger_label opts, rr_cancelled = None,
                       rr_categories = []\<rparr>],
                   b_fx := say ERROR GuildNotFound e0\<rparr>, Aborted)
            | Some g \<Rightarrow>
                (case g_refresh g of
                   Some err \<Rightarrow>
                     (b\<lparr>b_config := cfg, b_cleanupRunning := False, b_fx := tick e0\<rparr>, Threw err)
                 | None \<Rightarrow>
                     (case g_discover g (b_realm b) cfg of
                        Inl err \<Rightarrow>
                          (b\<lparr>b_config := cfg, b_cleanupRunning := False, b_fx := tick e0\<rparr>,
                           Threw err)
                      | Inr (R', cfg') \<Rightarrow>
                          (case categoryLoop R' cfg' (w_cancelAt w) effectiveDryRun
                                  (categoryFilter opts) (channelFilter opts)
                                  (g_categoryChannelMap g) (start_state (tick (tick e0))) of
                             (st, Some err) \<Rightarrow>
                               (b\<lparr>b_config := cfg', b_realm := R', b_cleanupRunning := False,
                                  b_fx := fx st\<rparr>, Threw err)
                           | (st, None) \<Rightarrow>
                               (let cancelled = cleanupCancelled (w_cancelAt w) (fx st);
                                    e1 = say INFO (CleanupSummary cancelled (totalProcessed st)
                                                     (totalPurged st) (totalSkipped st)
                                                     (totalErrors st))
                                           (fx st);
                                    runStats =
                                      \<lparr>rr_error = None, rr_totalProcessed = totalProcessed st,
                                       rr_totalPurged = totalPurged st,
                                       rr_totalErrors = totalErrors st,
                                       rr_dryRun = effectiveDryRun,
                                       rr_trigger = trigger_label opts,
                                       rr_cancelled = Some cancelled,
                                       rr_categories = categoryStats st\<rparr>
                                in (b\<lparr>b_config := cfg', b_realm := R',
                                       b_cleanupRunning := False,
                                       b_stats := persistStats runStats (b_stats b),
                                       b_events := b_events b @ [runStats],
                                       b_fx := e1\<rparr>, Completed runStats)))))))"


subsection \<open>A guild that is not found\<close>

definition default_options :: options where
  "default_options =
     \<lparr>forceDryRun = False, forceLive = False, categoryFilter = None, channelFilter = None,
      trigger_label = ''schedule''\<rparr>"

definition idle_bot :: bot where
  "idle_bot =
     \<lparr>b_config = example_config, b_realm = pristine, b_cleanupRunning = False, b_stats = None,
      b_events = [], b_fx = fresh\<rparr>"

definition unreachable_world :: world where
  "unreachable_world = \<lparr>w_reload = Some example_config, w_guild = None, w_cancelAt = None\<rparr>"

text \<open>
  C8 as stated fails: a run that finds the guild unreachable returns before
  \<open>persistStats\<close>; with no statistics file before the run there is none after it.
\<close>

theorem guild_unreachable_not_persisted:
  "snd (runCleanup default_options unreachable_world idle_bot) = Aborted
   \<and> b_stats (fst (runCleanup default_options unreachable_world idle_bot)) = None"
  by (simp add: runCleanup_def default_options_def unreachable_world_def idle_bot_def Let_def)

text \<open>
  C8 as amended. A run that starts (no cleanup is running) and finds the guild
  unreachable aborts before any channel is processed: it logs the start line and the
  error \<open>Guild not found\<close> and nothing else (besides the error of a failed
  configuration reload), sends no delete request, emits one \<open>cleanup-complete\<close> event
  reporting an error with zero channels processed, zero messages purged and one error,
  and releases the running flag. The statistics store is left as it was: the failed run
  is not persisted.
\<close>

theorem guild_unreachable_aborts:
  assumes "\<not> b_cleanupRunning b" and "w_guild w = None"
  shows "snd (runCleanup opts w b) = Aborted
       \<and> b_stats (fst (runCleanup opts w b)) = b_stats b
       \<and> calls (b_fx (fst (runCleanup opts w b))) = calls (b_fx b)
       \<and> (\<exists>line. logs (b_fx (fst (runCleanup opts w b))) =
             logs (b_fx b) @ (if w_reload w = None then [(ERROR, ConfigReloadFailed)] else [])
               @ [(INFO, line), (ERROR, GuildNotFound)])
       \<and> (\<exists>ev. b_events (fst (runCleanup opts w b)) = b_events b @ [ev]
             \<and> rr_error ev \<noteq> None \<and> rr_totalProcessed ev = 0 \<and> rr_totalPurged ev = 0
             \<and> rr_totalErrors ev = 1 \<and> rr_categories ev = [])
       \<and> \<not> b_cleanupRunning (fst (runCleanup opts w b))"
  using assms
  by (cases "w_reload w") (simp_all add: runCleanup_def Let_def say_def)

theorem guild_unreachable_aborts_witness:
  "\<not> b_cleanupRunning idle_bot \<and> w_guild unreachable_world = None
   \<and> snd (runCleanup default_options unreachable_world idle_bot) = Aborted
   \<and> b_stats (fst (runCleanup default_options unreachable_world idle_bot)) = b_stats idle_bot
   \<and> \<not> b_cleanupRunning (fst (runCleanup default_options unreachable_world idle_bot))"
proof -
  have idle: "\<not> b_cleanupRunning idle_bot"
    by (simp add: idle_bot_def)
  have gone: "w_guild unreachable_world = None"
    by (simp add: unreachable_world_def)
  show ?thesis
    using guild_unreachable_aborts [OF idle gone, of default_options] idle gone
    by simp
qed




subsection \<open>A retention that cannot be printed\<close>

definition guild_of :: "(string \<times> channel list) list \<Rightarrow> guild" where
  "guild_of cats =
     \<lparr>g_refresh = None, g_discover = (\<lambda>R cfg. Inr (R, cfg)), g_categoryChannelMap = cats\<rparr>"

definition world_of :: "config \<Rightarrow> (string \<times> channel list) list \<Rightarrow> world" where
  "world_of cfg cats =
     \<lparr>w_reload = Some cfg, w_guild = Some (guild_of cats), w_cancelAt = None\<rparr>"

definition other_channel :: channel where
  "other_channel = mixed_channel\<lparr>ch_name := ''other''\<rparr>"

text \<open>
  C3. The claim is that a resolved value of the wrong type is replaced by the global
  default with a warning, and that resolution never fails a run. The values \<open>-5\<close>,
  \<open>2.5\<close> and \<open>soon\<close> are so replaced. But \<open>validateRetention\<close> builds its warning by
  interpolating the value into a template literal; for the override
  \<open>general: {toString: 5}\<close> of the category \<open>misc\<close> that conversion throws a TypeError.
  \<open>getRetention\<close> is called outside the \<open>try\<close> of the channel, so the error leaves
  \<open>runCleanup\<close>: the run ends at the first channel of \<open>misc\<close>, the channel \<open>other\<close>
  is never scanned, no summary is logged, no event is emitted and nothing is persisted.
\<close>

theorem getRetention_unprintable_override_throws:
  "getRetention pristine example_config ''odd'' ''spam'' =
       Inr (JNum 7, [(WARN, InvalidRetention (Doc (JNum (-5))) ''odd/#spam'' (JNum 7))])
   \<and> getRetention pristine example_config ''odd'' ''half'' =
       Inr (JNum 7, [(WARN, InvalidRetention (Doc (JNum (5 / 2))) ''odd/#half'' (JNum 7))])
   \<and> getRetention pristine example_config ''odd'' ''general'' =
       Inr (JNum 7, [(WARN, InvalidRetention (Doc (JStr ''soon'')) ''odd/default'' (JNum 7))])
   \<and> getRetention pristine example_config ''misc'' ''general'' = Inl type_error
   \<and> runCleanup default_options
        (world_of example_config [(''misc'', [mixed_channel, other_channel])]) idle_bot
     = (\<lparr>b_config = example_config, b_realm = pristine, b_cleanupRunning = False,
         b_stats = None, b_events = [],
         b_fx = \<lparr>clock = 2,
                 logs = [(INFO, StartingCleanup False),
                         (INFO, ProcessingCategory ''misc'' 2),
                         (INFO, Scanning ''misc'' ''general'' 1 2)],
                 calls = []\<rparr>\<rparr>,
        Threw type_error)"
proof -
  have a: "getRetention pristine example_config ''odd'' ''spam'' =
       Inr (JNum 7, [(WARN, InvalidRetention (Doc (JNum (-5))) ''odd/#spam'' (JNum 7))])"
    by code_simp
  have b: "getRetention pristine example_config ''odd'' ''half'' =
       Inr (JNum 7, [(WARN, InvalidRetention (Doc (JNum (5 / 2))) ''odd/#half'' (JNum 7))])"
    by code_simp
  have c: "getRetention pristine example_config ''odd'' ''general'' =
       Inr (JNum 7, [(WARN, InvalidRetention (Doc (JStr ''soon'')) ''odd/default'' (JNum 7))])"
    by code_simp
  have d: "getRetention pristine example_config ''misc'' ''general'' = Inl type_error"
    by code_simp
  have e: "runCleanup default_options
        (world_of example_config [(''misc'', [mixed_channel, other_channel])]) idle_bot
     = (\<lparr>b_config = example_config, b_realm = pristine, b_cleanupRunning = False,
         b_stats = None, b_events = [],
         b_fx = \<lparr>clock = 2,
                 logs = [(INFO, StartingCleanup False),
                         (INFO, ProcessingCategory ''misc'' 2),
                         (INFO, Scanning ''misc'' ''general'' 1 2)],
                 calls = []\<rparr>\<rparr>,
        Threw type_error)"
    by code_simp
  from a b c d e show ?thesis
    by (intro conjI)
qed



subsection \<open>Failures of a channel\<close>

text \<open>
  A channel result recorded with an error. The channels of a category that are due for
  their turn: listed for the category and passing the channel filter. What the turn of a
  channel records when the resolution of its retention does not throw: a skip for a
  retention of -1, otherwise the result of cleaning the channel. A category is due when
  it is enabled and passes the category filter.
\<close>


definition is_failure :: "channel_result \<Rightarrow> bool" where
  "is_failure r \<longleftrightarrow> cr_error r \<noteq> None"

definition takes_turn :: "string list \<Rightarrow> string option \<Rightarrow> channel \<Rightarrow> bool" where
  "takes_turn allowed cf c \<longleftrightarrow>
     ch_name c \<in> set allowed \<and> \<not> filtered_out cf (ch_name c)"

definition turn_result ::
  "realm \<Rightarrow> config \<Rightarrow> bool \<Rightarrow> string \<Rightarrow> bool \<Rightarrow> channel \<Rightarrow> channel_result option" where
  "turn_result R cfg dry catName delOld ch =
     (case getRetention R cfg catName (ch_name ch) of
        Inl err \<Rightarrow> None
      | Inr (retention, warnings) \<Rightarrow>
          Some (if retention = JNum (-1) then SkippedResult (ch_name ch)
                else fst (cleanChannel cfg None dry catName delOld ch retention
                            (getRetentionSource R cfg catName (ch_name ch)) fresh)))"

definition deleteOld_of :: "realm \<Rightarrow> config \<Rightarrow> string \<Rightarrow> bool" where
  "deleteOld_of R cfg catName =
     (case category_of R cfg catName of
        None \<Rightarrow> True
      | Some cat \<Rightarrow> cat_field R cat DeleteOld \<noteq> Some (JBool False))"

definition category_turns ::
  "realm \<Rightarrow> config \<Rightarrow> bool \<Rightarrow> string option \<Rightarrow> string \<Rightarrow> channel list \<Rightarrow> channel_result list" where
  "category_turns R cfg dry chF catName chans =
     List.map_filter (turn_result R cfg dry catName (deleteOld_of R cfg catName))
       (filter (takes_turn (getConfiguredChannels R cfg catName) chF) chans)"

definition due :: "realm \<Rightarrow> config \<Rightarrow> string option \<Rightarrow> string \<Rightarrow> bool" where
  "due R cfg catF catName \<longleftrightarrow> isEnabled R cfg catName \<and> \<not> filtered_out catF catName"

fun due_turns ::
  "realm \<Rightarrow> config \<Rightarrow> string option \<Rightarrow> string option \<Rightarrow> (string \<times> channel list) list \<Rightarrow> nat" where
  "due_turns R cfg catF chF [] = 0"
| "due_turns R cfg catF chF ((c, chans) # rest) =
     (if due R cfg catF c
      then length (filter (takes_turn (getConfiguredChannels R cfg c) chF) chans)
      else 0) + due_turns R cfg catF chF rest"

fun failed_turns ::
  "realm \<Rightarrow> config \<Rightarrow> bool \<Rightarrow> string option \<Rightarrow> string option \<Rightarrow> (string \<times> channel list) list
   \<Rightarrow> nat" where
  "failed_turns R cfg dry catF chF [] = 0"
| "failed_turns R cfg dry catF chF ((c, chans) # rest) =
     (if due R cfg catF c
      then length (filter is_failure (category_turns R cfg dry chF c chans))
      else 0) + failed_turns R cfg dry catF chF rest"

fun all_resolve ::
  "realm \<Rightarrow> config \<Rightarrow> string option \<Rightarrow> string option \<Rightarrow> (string \<times> channel list) list \<Rightarrow> bool" where
  "all_resolve R cfg catF chF [] = True"
| "all_resolve R cfg catF chF ((c, chans) # rest) =
     ((due R cfg catF c \<longrightarrow>
        (\<forall>ch \<in> set chans. takes_turn (getConfiguredChannels R cfg c) chF ch \<longrightarrow>
           \<not> isl (getRetention R cfg c (ch_name ch))))
      \<and> all_resolve R cfg catF chF rest)"

lemma oldPhase_count_uncancelled:
  "fst (oldPhase None ch cat ms d e) = d + length (filter (\<lambda>m. ch_delete ch m = None) ms)"
proof -
  obtain d' e' where op: "oldPhase None ch cat ms d e = (d', e')"
    by (cases "oldPhase None ch cat ms d e")
  from oldPhase_sent[OF op] show ?thesis
    using op by auto
qed

lemma scanAndDelete_result:
  "snd (scanAndDelete cfg None dry cat dOld ch ret e)
   = snd (scanAndDelete cfg None dry cat dOld ch ret e0)"
proof -
  let ?cap = "maxOldDeletesPerChannel (discord cfg)"
  obtain e1 r1 where scan: "scanChannel cfg dOld ch ret e = (e1, r1)"
    by (cases "scanChannel cfg dOld ch ret e")
  obtain e1' where scan0: "scanChannel cfg dOld ch ret e0 = (e1', r1)"
    using scanChannel_result[of cfg dOld ch ret e0 e] scan
    by (cases "scanChannel cfg dOld ch ret e0") simp
  show ?thesis
  proof (cases r1)
    case (Inl err)
    then show ?thesis
      using scanAndDelete_scan_failed[OF scan[unfolded Inl]]
        scanAndDelete_scan_failed[OF scan0[unfolded Inl]] by simp
  next
    case (Inr t)
    obtain bulk old fetched seen where t: "t = (bulk, old, fetched, seen)"
      by (cases t)
    note s = scan[unfolded Inr t] and s0 = scan0[unfolded Inr t]
    show ?thesis
    proof (cases "bulk = [] \<and> old = []")
      case True
      then show ?thesis
        using scanAndDelete_nothing[of cfg dOld ch ret e e1 fetched seen None dry cat]
          scanAndDelete_nothing[of cfg dOld ch ret e0 e1' fetched seen None dry cat] s s0
        by simp
    next
      case False
      then have ne: "bulk \<noteq> [] \<or> old \<noteq> []" by simp
      show ?thesis
      proof (cases dry)
        case True
        then show ?thesis
          using scanAndDelete_dry[OF s ne, of None cat] scanAndDelete_dry[OF s0 ne, of None cat]
          by simp
      next
        case live: False
        obtain e2 r2 where bp: "bulkPhase ch bulk 0 0 e1 = (e2, r2)"
          by (cases "bulkPhase ch bulk 0 0 e1")
        obtain e2' where bp0: "bulkPhase ch bulk 0 0 e1' = (e2', r2)"
          using bulkPhase_result[of ch bulk 0 0 e1' e1] bp
          by (cases "bulkPhase ch bulk 0 0 e1'") simp
        show ?thesis
        proof (cases r2)
          case (Inl err)
          then show ?thesis
            using live scanAndDelete_bulk_failed[OF s ne bp[unfolded Inl], of None cat]
              scanAndDelete_bulk_failed[OF s0 ne bp0[unfolded Inl], of None cat]
            by simp
        next
          case r2: (Inr d2)
          obtain d3 e3 where op: "oldPhase None ch cat (slice0 ?cap old) d2 e2 = (d3, e3)"
            by (cases "oldPhase None ch cat (slice0 ?cap old) d2 e2")
          obtain d3' e3' where op0: "oldPhase None ch cat (slice0 ?cap old) d2 e2' = (d3', e3')"
            by (cases "oldPhase None ch cat (slice0 ?cap old) d2 e2'")
          have "d3 = d3'"
            using oldPhase_count_uncancelled[of ch cat "slice0 ?cap old" d2 e2]
              oldPhase_count_uncancelled[of ch cat "slice0 ?cap old" d2 e2'] op op0 by simp
          then show ?thesis
            using live scanAndDelete_live[OF s ne bp[unfolded r2] op]
              scanAndDelete_live[OF s0 ne bp0[unfolded r2] op0]
            by simp
        qed
      qed
    qed
  qed
qed

lemma cleanChannel_result:
  "cleanChannel cfg cancelAt dry cat dOld ch ret src e = (r, added, failed, e')
   \<Longrightarrow> cr_name r = ch_name ch \<and> (failed \<longleftrightarrow> is_failure r)"
  by (auto simp: cleanChannel_def is_failure_def split: prod.splits sum.splits)

lemma cleanChannel_fst:
  "fst (cleanChannel cfg None dry cat dOld ch ret src e)
   = fst (cleanChannel cfg None dry cat dOld ch ret src e0)"
  using scanAndDelete_result[of cfg dry cat dOld ch ret e e0]
  by (cases "scanAndDelete cfg None dry cat dOld ch ret e";
      cases "scanAndDelete cfg None dry cat dOld ch ret e0")
     (auto simp: cleanChannel_def split: sum.splits)

lemma channelLoop_turns:
  assumes "channelLoop R cfg None dry cf cat allowed n dOld chans (rs, ce, idx) st
             = ((rs', ce', idx'), st', thrown)"
    and "\<forall>ch \<in> set chans. takes_turn allowed cf ch \<longrightarrow> \<not> isl (getRetention R cfg cat (ch_name ch))"
  shows "thrown = None
       \<and> rs' = rs @ List.map_filter (turn_result R cfg dry cat dOld) (filter (takes_turn allowed cf) chans)
       \<and> totalProcessed st' = totalProcessed st + length (filter (takes_turn allowed cf) chans)
       \<and> totalErrors st' + length (filter is_failure rs) = totalErrors st + length (filter is_failure rs')
       \<and> (ce' \<longleftrightarrow> ce \<or> (\<exists>r \<in> set (drop (length rs) rs'). is_failure r))
       \<and> categoryStats st' = categoryStats st"
  using assms
proof (induction chans arbitrary: rs ce idx st)
  case Nil
  then show ?case by (simp add: List.map_filter_simps)
next
  case (Cons ch rest)
  have rest_ok: "\<forall>c \<in> set rest. takes_turn allowed cf c \<longrightarrow> \<not> isl (getRetention R cfg cat (ch_name c))"
    using Cons.prems(2) by simp
  show ?case
  proof (cases "takes_turn allowed cf ch")
    case False
    have "channelLoop R cfg None dry cf cat allowed n dOld rest (rs, ce, idx)
            (if ch_name ch \<notin> set allowed then st\<lparr>totalSkipped := totalSkipped st + 1\<rparr> else st)
          = ((rs', ce', idx'), st', thrown)"
      using Cons.prems(1) False
      by (auto simp: takes_turn_def cleanupCancelled_def split: if_splits)
    from Cons.IH[OF this rest_ok] False show ?thesis
      by (auto split: if_splits)
  next
    case True
    then obtain ret warnings where gr: "getRetention R cfg cat (ch_name ch) = Inr (ret, warnings)"
      using Cons.prems(2) by (cases "getRetention R cfg cat (ch_name ch)") auto
    let ?e1 = "say INFO (Scanning cat (ch_name ch) (idx + 1) n) (fx st)"
    let ?e2 = "?e1\<lparr>logs := logs ?e1 @ warnings\<rparr>"
    let ?src = "getRetentionSource R cfg cat (ch_name ch)"
    show ?thesis
    proof (cases "ret = JNum (-1)")
      case never: True
      have tr: "turn_result R cfg dry cat dOld ch = Some (SkippedResult (ch_name ch))"
        using gr never by (simp add: turn_result_def)
      have "channelLoop R cfg None dry cf cat allowed n dOld rest
              (rs @ [SkippedResult (ch_name ch)], ce, idx + 1)
              (st\<lparr>totalProcessed := totalProcessed st + 1, fx := ?e2\<rparr>)
            = ((rs', ce', idx'), st', thrown)"
        using Cons.prems(1) True gr never
        by (simp add: takes_turn_def cleanupCancelled_def Let_def)
      from Cons.IH[OF this rest_ok] True tr show ?thesis
        by (auto simp: is_failure_def List.map_filter_simps)
    next
      case False
      obtain r added failed e3 where
        cc: "cleanChannel cfg None dry cat dOld ch ret ?src ?e2 = (r, added, failed, e3)"
        by (cases "cleanChannel cfg None dry cat dOld ch ret ?src ?e2")
      have r: "r = fst (cleanChannel cfg None dry cat dOld ch ret ?src fresh)"
        using cleanChannel_fst[of cfg dry cat dOld ch ret ?src ?e2 fresh] cc by simp
      have tr: "turn_result R cfg dry cat dOld ch = Some r"
        using gr False r by (simp add: turn_result_def)
      have "channelLoop R cfg None dry cf cat allowed n dOld rest
              (rs @ [r], ce \<or> failed, idx + 1)
              (st\<lparr>totalProcessed := totalProcessed st + 1,
                  totalPurged := totalPurged st + added,
                  totalErrors := totalErrors st + (if failed then 1 else 0),
                  fx := tick e3\<rparr>)
            = ((rs', ce', idx'), st', thrown)"
        using Cons.prems(1) True gr False cc
        by (simp add: takes_turn_def cleanupCancelled_def Let_def)
      from Cons.IH[OF this rest_ok] True tr cleanChannel_result[OF cc] show ?thesis
        by (auto simp: List.map_filter_simps)
    qed
  qed
qed


lemma map_of_replace:
  "map_of (map (\<lambda>(k', v'). if k' = k then (k', v) else (k', v')) m) x
   = (if x = k then map_option (\<lambda>_. v) (map_of m k) else map_of m x)"
  by (induction m) (auto simp: case_prod_beta)

lemma map_of_assign:
  "map_of (assign k v m) x
   = (if x = k \<and> (k \<in> fst ` set m \<or> k \<noteq> ''__proto__'') then Some v else map_of m x)"
proof (cases "k \<in> fst ` set m")
  case True
  then obtain w where "map_of m k = Some w"
    by (metis map_of_eq_None_iff not_None_eq)
  then show ?thesis
    using True by (simp add: assign_def map_of_replace)
next
  case False
  then have "map_of m k = None"
    by (simp add: map_of_eq_None_iff)
  then show ?thesis
    using False by (auto simp: assign_def map_add_def split: option.splits)
qed

definition colour_usable :: "config \<Rightarrow> bool" where
  "colour_usable cfg \<longleftrightarrow> typeof (cleanupColor cfg) = ''string'' \<or> \<not> truthy (cleanupColor cfg)"

lemma categoryLoop_turns:
  assumes "distinct (map fst cats)"
    and "all_resolve R cfg catF chF cats"
    and "colour_usable cfg"
    and "categoryLoop R cfg None dry catF chF cats st = (st', thrown)"
  shows "thrown = None
       \<and> totalProcessed st' = totalProcessed st + due_turns R cfg catF chF cats
       \<and> totalErrors st' = totalErrors st + failed_turns R cfg dry catF chF cats
       \<and> (\<forall>c. c \<notin> fst ` set cats \<longrightarrow> map_of (categoryStats st') c = map_of (categoryStats st) c)
       \<and> (\<forall>c chans. (c, chans) \<in> set cats \<and> due R cfg catF c \<and> c \<noteq> ''__proto__'' \<longrightarrow>
             map_of (categoryStats st') c
               = Some (collectStats (category_turns R cfg dry chF c chans)))"
  using assms
proof (induction cats arbitrary: st)
  case Nil
  then show ?case by simp
next
  case (Cons p rest)
  obtain c chans where p: "p = (c, chans)"
    by (cases p)
  have d: "distinct (map fst rest)" and cfresh: "c \<notin> fst ` set rest"
    using Cons.prems(1) p by auto
  have res: "all_resolve R cfg catF chF rest"
    using Cons.prems(2) p by simp
  show ?case
  proof (cases "due R cfg catF c")
    case False
    have skip: "categoryLoop R cfg None dry catF chF (p # rest) st
                = categoryLoop R cfg None dry catF chF rest
                    (if \<not> isEnabled R cfg c then st\<lparr>totalSkipped := totalSkipped st + length chans\<rparr> else st)"
      using False unfolding p by (simp add: cleanupCancelled_def due_def)
    note ih = Cons.IH[OF d res Cons.prems(3) Cons.prems(4)[unfolded skip]]
    have dt: "due_turns R cfg catF chF (p # rest) = due_turns R cfg catF chF rest"
      "failed_turns R cfg dry catF chF (p # rest) = failed_turns R cfg dry catF chF rest"
      using False unfolding p by simp_all
    have g1: "thrown = None" using ih by simp
    have g2: "totalProcessed st' = totalProcessed st + due_turns R cfg catF chF (p # rest)"
      using ih[THEN conjunct2, THEN conjunct1] unfolding dt by (simp split: if_splits)
    have g3: "totalErrors st' = totalErrors st + failed_turns R cfg dry catF chF (p # rest)"
      using ih[THEN conjunct2, THEN conjunct2, THEN conjunct1] unfolding dt by (simp split: if_splits)
    have g4: "\<forall>x. x \<notin> fst ` set (p # rest) \<longrightarrow> map_of (categoryStats st') x = map_of (categoryStats st) x"
      using ih[THEN conjunct2, THEN conjunct2, THEN conjunct2, THEN conjunct1]
      by (simp split: if_splits)
    have g5: "\<forall>x xs. (x, xs) \<in> set (p # rest) \<and> due R cfg catF x \<and> x \<noteq> ''__proto__'' \<longrightarrow>
             map_of (categoryStats st') x = Some (collectStats (category_turns R cfg dry chF x xs))"
      using ih[THEN conjunct2, THEN conjunct2, THEN conjunct2, THEN conjunct2] False
      unfolding p by auto
    from g1 g2 g3 g4 g5 show ?thesis
      by blast
  next
    case True
    then have en: "isEnabled R cfg c" and nf: "\<not> filtered_out catF c"
      by (simp_all add: due_def)
    from en obtain cat where cat: "category_of R cfg c = Some cat"
      by (auto simp: isEnabled_def split: option.splits)
    let ?allowed = "getConfiguredChannels R cfg c"
    let ?dOld = "cat_field R cat DeleteOld \<noteq> Some (JBool False)"
    have dOld: "deleteOld_of R cfg c = ?dOld"
      using cat by (simp add: deleteOld_of_def)
    let ?n = "length (filter (\<lambda>x. ch_name x \<in> set ?allowed) chans)"
    let ?st1 = "st\<lparr>fx := say INFO (ProcessingCategory c ?n) (fx st)\<rparr>"
    let ?loop = "channelLoop R cfg None dry chF c ?allowed ?n ?dOld chans ([], False, 0) ?st1"
    obtain res1 st2 thrown1 where cl0: "?loop = (res1, st2, thrown1)"
      by (cases ?loop)
    obtain rs ce idx where res1: "res1 = (rs, ce, idx)"
      by (cases res1)
    note cl = cl0[unfolded res1]
    have chans_ok: "\<forall>ch \<in> set chans. takes_turn ?allowed chF ch \<longrightarrow>
                      \<not> isl (getRetention R cfg c (ch_name ch))"
      using Cons.prems(2) True unfolding p by simp
    note facts = channelLoop_turns[OF cl chans_ok]
    have thrown1: "thrown1 = None" using facts by simp
    have rs: "rs = category_turns R cfg dry chF c chans"
      using facts by (simp add: category_turns_def dOld)
    let ?st3 = "st2\<lparr>categoryStats := assign c (collectStats rs) (categoryStats st2)\<rparr>"
    let ?st4 = "if (\<exists>r \<in> set rs. cr_purged r > 0) \<or> ce
                then ?st3\<lparr>embeds := embeds ?st3 @ [c]\<rparr> else ?st3"
    have emb: "buildCategoryEmbed cfg c = Inr c"
      using Cons.prems(3) by (auto simp: buildCategoryEmbed_def colour_usable_def)
    have step: "categoryLoop R cfg None dry catF chF (p # rest) st
                = categoryLoop R cfg None dry catF chF rest ?st4"
      using en nf cat cl thrown1 emb unfolding p by (simp add: cleanupCancelled_def Let_def)
    note ih = Cons.IH[OF d res Cons.prems(3) Cons.prems(4)[unfolded step]]
    have cs4: "categoryStats ?st4 = assign c (collectStats rs) (categoryStats st)"
      using facts by simp
    have tp4: "totalProcessed ?st4 = totalProcessed st
                 + length (filter (takes_turn ?allowed chF) chans)"
      using facts by simp
    have te4: "totalErrors ?st4 = totalErrors st + length (filter is_failure rs)"
      using facts by simp
    have dt: "due_turns R cfg catF chF (p # rest)
              = length (filter (takes_turn ?allowed chF) chans) + due_turns R cfg catF chF rest"
      "failed_turns R cfg dry catF chF (p # rest)
              = length (filter is_failure rs) + failed_turns R cfg dry catF chF rest"
      using True unfolding p rs by simp_all
    have g1: "thrown = None" using ih by simp
    have g2: "totalProcessed st' = totalProcessed st + due_turns R cfg catF chF (p # rest)"
      using ih[THEN conjunct2, THEN conjunct1] unfolding dt tp4 by simp
    have g3: "totalErrors st' = totalErrors st + failed_turns R cfg dry catF chF (p # rest)"
      using ih[THEN conjunct2, THEN conjunct2, THEN conjunct1] unfolding dt te4 by simp
    note ih4 = ih[THEN conjunct2, THEN conjunct2, THEN conjunct2, THEN conjunct1, unfolded cs4]
    note ih5 = ih[THEN conjunct2, THEN conjunct2, THEN conjunct2, THEN conjunct2]
    have g4: "\<forall>x. x \<notin> fst ` set (p # rest) \<longrightarrow> map_of (categoryStats st') x = map_of (categoryStats st) x"
      using ih4 unfolding p by (simp add: map_of_assign)
    have here: "map_of (categoryStats st') c = Some (collectStats rs)" if "c \<noteq> ''__proto__''"
      using ih4 cfresh that by (simp add: map_of_assign)
    have g5: "\<forall>x xs. (x, xs) \<in> set (p # rest) \<and> due R cfg catF x \<and> x \<noteq> ''__proto__'' \<longrightarrow>
             map_of (categoryStats st') x = Some (collectStats (category_turns R cfg dry chF x xs))"
    proof (intro allI impI)
      fix x xs
      assume a: "(x, xs) \<in> set (p # rest) \<and> due R cfg catF x \<and> x \<noteq> ''__proto__''"
      show "map_of (categoryStats st') x = Some (collectStats (category_turns R cfg dry chF x xs))"
      proof (cases "(x, xs) = p")
        case True
        then show ?thesis
          using here a rs unfolding p by simp
      next
        case False
        then have "(x, xs) \<in> set rest" using a by simp
        then show ?thesis
          using ih5 a by blast
      qed
    qed
    from g1 g2 g3 g4 g5 show ?thesis
      by blast
  qed
qed


lemma cleanChannel_failure_cause:
  "cr_error (fst (cleanChannel cfg cancelAt dry cat dOld ch ret src e)) = Some err \<longleftrightarrow>
     snd (scanChannel cfg dOld ch ret e) = Inl err
   \<or> (\<not> dry
      \<and> (bulkDeletableOf (scanChannel cfg dOld ch ret e) \<noteq> []
         \<or> oldDeletableOf (scanChannel cfg dOld ch ret e) \<noteq> [])
      \<and> snd (bulkPhase ch (bulkDeletableOf (scanChannel cfg dOld ch ret e)) 0 0 e) = Inl err)"
proof -
  let ?cap = "maxOldDeletesPerChannel (discord cfg)"
  obtain e1 r1 where scan: "scanChannel cfg dOld ch ret e = (e1, r1)"
    by (cases "scanChannel cfg dOld ch ret e")
  show ?thesis
  proof (cases r1)
    case (Inl x)
    then show ?thesis
      using scan scanAndDelete_scan_failed[OF scan[unfolded Inl], of cancelAt dry cat]
      by (auto simp: cleanChannel_def bulkDeletableOf_def oldDeletableOf_def)
  next
    case (Inr t)
    obtain bulk old fetched seen where t: "t = (bulk, old, fetched, seen)"
      by (cases t)
    note s = scan[unfolded Inr t]
    have lists: "bulkDeletableOf (scanChannel cfg dOld ch ret e) = bulk"
      "oldDeletableOf (scanChannel cfg dOld ch ret e) = old"
      "snd (scanChannel cfg dOld ch ret e) = Inr (bulk, old, fetched, seen)"
      using s by (simp_all add: bulkDeletableOf_def oldDeletableOf_def)
    show ?thesis
    proof (cases "bulk = [] \<and> old = []")
      case True
      then show ?thesis
        using scanAndDelete_nothing[of cfg dOld ch ret e e1 fetched seen cancelAt dry cat] s
        unfolding lists by (auto simp: cleanChannel_def)
    next
      case False
      then have ne: "bulk \<noteq> [] \<or> old \<noteq> []" by simp
      show ?thesis
      proof (cases dry)
        case True
        then show ?thesis
          using scanAndDelete_dry[OF s ne, of cancelAt cat]
          unfolding lists by (auto simp: cleanChannel_def)
      next
        case live: False
        obtain e2 r2 where bp: "bulkPhase ch bulk 0 0 e1 = (e2, r2)"
          by (cases "bulkPhase ch bulk 0 0 e1")
        have r2: "snd (bulkPhase ch bulk 0 0 e) = r2"
          using bulkPhase_result[of ch bulk 0 0 e e1] bp by simp
        show ?thesis
        proof (cases r2)
          case (Inl y)
          then show ?thesis
            using live ne r2 scanAndDelete_bulk_failed[OF s ne bp[unfolded Inl], of cancelAt cat]
            unfolding lists by (auto simp: cleanChannel_def)
        next
          case ok: (Inr d2)
          obtain d3 e3 where op: "oldPhase cancelAt ch cat (slice0 ?cap old) d2 e2 = (d3, e3)"
            by (cases "oldPhase cancelAt ch cat (slice0 ?cap old) d2 e2")
          show ?thesis
            using live ne r2 ok scanAndDelete_live[OF s ne bp[unfolded ok] op]
            unfolding lists by (auto simp: cleanChannel_def)
        qed
      qed
    qed
  qed
qed

lemma cleanChannel_error_record:
  assumes "cr_error (fst (cleanChannel cfg cancelAt dry cat dOld ch ret src e)) = Some err"
  shows "cleanChannel cfg cancelAt dry cat dOld ch ret src e
         = (ErrorResult (ch_name ch) ret src err, 0, True,
            say ERROR (ChannelFailed cat (ch_name ch) err)
              (fst (scanAndDelete cfg cancelAt dry cat dOld ch ret e)))"
  using assms
  by (cases "scanAndDelete cfg cancelAt dry cat dOld ch ret e")
     (auto simp: cleanChannel_def split: sum.splits)

text \<open>The warning that messages remain, if any.\<close>

definition remain_lines :: "limit \<Rightarrow> string \<Rightarrow> channel \<Rightarrow> message list \<Rightarrow> log_entry list" where
  "remain_lines cap catName ch old =
     (case cap of
        Finite n \<Rightarrow> (if length old > n
                     then [(WARN, OldRemain catName (ch_name ch) (length old - n) n)] else [])
      | _ \<Rightarrow> [])"

lemma cleanChannel_old_failures:
  assumes "snd (scanChannel cfg dOld ch ret e) = Inr (bulk, old, fetched, seen)"
    and "bulk \<noteq> [] \<or> old \<noteq> []"
    and "snd (bulkPhase ch bulk 0 0 e) = Inr d"
  shows "fst (cleanChannel cfg None False cat dOld ch ret src e)
           = PurgedResult (ch_name ch) ret src
               (Some (d + length (filter (\<lambda>m. ch_delete ch m = None)
                                    (slice0 (maxOldDeletesPerChannel (discord cfg)) old))))
       \<and> \<not> fst (snd (snd (cleanChannel cfg None False cat dOld ch ret src e)))
       \<and> calls (snd (snd (snd (cleanChannel cfg None False cat dOld ch ret src e))))
           = calls e @ batches bulk
               @ map OldDelete (slice0 (maxOldDeletesPerChannel (discord cfg)) old)
       \<and> logs (snd (snd (snd (cleanChannel cfg None False cat dOld ch ret src e))))
           = logs e @ failure_lines cat ch (slice0 (maxOldDeletesPerChannel (discord cfg)) old)
               @ remain_lines (maxOldDeletesPerChannel (discord cfg)) cat ch old
               @ [(INFO, Deleted cat (ch_name ch)
                           (d + length (filter (\<lambda>m. ch_delete ch m = None)
                                          (slice0 (maxOldDeletesPerChannel (discord cfg)) old))))]"
proof -
  let ?cap = "maxOldDeletesPerChannel (discord cfg)"
  obtain e1 where scan: "scanChannel cfg dOld ch ret e = (e1, Inr (bulk, old, fetched, seen))"
    using assms(1) by (cases "scanChannel cfg dOld ch ret e") simp
  have e1: "calls e1 = calls e" "logs e1 = logs e"
    using scanChannel_eff[OF scan] by simp_all
  obtain e2 where bp: "bulkPhase ch bulk 0 0 e1 = (e2, Inr d)"
    using assms(3) bulkPhase_result[of ch bulk 0 0 e1 e]
    by (cases "bulkPhase ch bulk 0 0 e1") simp
  have e2: "calls e2 = calls e1 @ batches bulk" "logs e2 = logs e1"
    using bulkPhase_sent[OF bp] by simp_all
  obtain d3 e3 where op: "oldPhase None ch cat (slice0 ?cap old) d e2 = (d3, e3)"
    by (cases "oldPhase None ch cat (slice0 ?cap old) d e2")
  from oldPhase_sent[OF op] obtain k where
    k: "calls e3 = calls e2 @ map OldDelete (take k (slice0 ?cap old))"
       "logs e3 = logs e2 @ failure_lines cat ch (take k (slice0 ?cap old))"
       "d3 = d + length (filter (\<lambda>m. ch_delete ch m = None) (take k (slice0 ?cap old)))"
       "k = length (slice0 ?cap old)"
    by auto
  have whole: "take k (slice0 ?cap old) = slice0 ?cap old"
    unfolding k(4) by simp
  note k' = k(1,2,3)[unfolded whole]
  show ?thesis
    using scanAndDelete_live[OF scan assms(2) bp op] k' e1 e2
    by (auto simp: cleanChannel_def remain_lines_def split: limit.splits)
qed


text \<open>The mode of a run.\<close>

definition effective_dry :: "options \<Rightarrow> config \<Rightarrow> bool" where
  "effective_dry opts cfg = (if forceLive opts then False else (dryRun cfg \<or> forceDryRun opts))"

text \<open>
  C7 as amended. Take a run that reaches the channel loop and is not cancelled, in
  which no resolution of a retention throws and the colour setting of the notification
  is usable (the two ways out of the loops that are not failures of a channel). Whatever
  the platform answers to the fetches and deletes: the run completes; every channel due
  takes its turn; the statistics of each category hold, for each of its channels in
  turn, the result of that channel; and the run's error counter is the number of these
  results that carry an error. (The statistics of a category named \<open>__proto__\<close> are
  lost in the assignment.)

  The result of a channel carries an error exactly when a fetch of its scan throws, or,
  in a live run with something to delete, a call of the bulk phase (a bulk delete, or
  the single delete of a batch of one) throws; the result is then the channel's name
  with that error and a count of zero, the error flag is raised and the error is logged.

  The failure of an individual delete of a message older than 14 days is not among
  these. In a live run whose scan and bulk phase have not thrown, whatever the
  individual deletes answer: the result of the channel carries no error and the error
  flag is not raised; the count is the number deleted by the bulk phase plus the number
  of individual deletes that succeeded; a delete request is sent for every
  individually-eligible message up to the cap, after a failure as well; and each
  failure is logged as a warning.
\<close>

theorem channel_failures_isolated:
  assumes "\<not> b_cleanupRunning b"
    and "w_guild w = Some g"
    and "g_refresh g = None"
    and "g_discover g (b_realm b) (case w_reload w of Some c \<Rightarrow> c | None \<Rightarrow> b_config b)
           = Inr (R, cfg)"
    and "w_cancelAt w = None"
    and "distinct (map fst (g_categoryChannelMap g))"
    and "all_resolve R cfg (categoryFilter opts) (channelFilter opts) (g_categoryChannelMap g)"
    and "colour_usable cfg"
  shows "(\<exists>report. snd (runCleanup opts w b) = Completed report
            \<and> rr_totalProcessed report =
                due_turns R cfg (categoryFilter opts) (channelFilter opts) (g_categoryChannelMap g)
            \<and> rr_totalErrors report =
                failed_turns R cfg
                  (effective_dry opts (case w_reload w of Some c \<Rightarrow> c | None \<Rightarrow> b_config b))
                  (categoryFilter opts) (channelFilter opts) (g_categoryChannelMap g)
            \<and> rr_cancelled report = Some False
            \<and> (\<forall>c chans. (c, chans) \<in> set (g_categoryChannelMap g)
                   \<and> due R cfg (categoryFilter opts) c \<and> c \<noteq> ''__proto__'' \<longrightarrow>
                   map_of (rr_categories report) c
                     = Some (collectStats
                         (category_turns R cfg
                            (effective_dry opts
                               (case w_reload w of Some c \<Rightarrow> c | None \<Rightarrow> b_config b))
                            (channelFilter opts) c chans))))
       \<and> (\<forall>cancelAt dry cat dOld ch ret src e err.
            (cr_error (fst (cleanChannel cfg cancelAt dry cat dOld ch ret src e)) = Some err \<longleftrightarrow>
               snd (scanChannel cfg dOld ch ret e) = Inl err
             \<or> (\<not> dry
                \<and> (bulkDeletableOf (scanChannel cfg dOld ch ret e) \<noteq> []
                   \<or> oldDeletableOf (scanChannel cfg dOld ch ret e) \<noteq> [])
                \<and> snd (bulkPhase ch (bulkDeletableOf (scanChannel cfg dOld ch ret e)) 0 0 e)
                    = Inl err))
          \<and> (cr_error (fst (cleanChannel cfg cancelAt dry cat dOld ch ret src e)) = Some err \<longrightarrow>
               cleanChannel cfg cancelAt dry cat dOld ch ret src e
                 = (ErrorResult (ch_name ch) ret src err, 0, True,
                    say ERROR (ChannelFailed cat (ch_name ch) err)
                      (fst (scanAndDelete cfg cancelAt dry cat dOld ch ret e)))))
       \<and> (\<forall>cat dOld ch ret src e bulk old fetched seen d.
            snd (scanChannel cfg dOld ch ret e) = Inr (bulk, old, fetched, seen)
            \<and> (bulk \<noteq> [] \<or> old \<noteq> [])
            \<and> snd (bulkPhase ch bulk 0 0 e) = Inr d \<longrightarrow>
              fst (cleanChannel cfg None False cat dOld ch ret src e)
                = PurgedResult (ch_name ch) ret src
                    (Some (d + length (filter (\<lambda>m. ch_delete ch m = None)
                                         (slice0 (maxOldDeletesPerChannel (discord cfg)) old))))
            \<and> \<not> fst (snd (snd (cleanChannel cfg None False cat dOld ch ret src e)))
            \<and> calls (snd (snd (snd (cleanChannel cfg None False cat dOld ch ret src e))))
                = calls e @ batches bulk
                    @ map OldDelete (slice0 (maxOldDeletesPerChannel (discord cfg)) old)
            \<and> logs (snd (snd (snd (cleanChannel cfg None False cat dOld ch ret src e))))
                = logs e @ failure_lines cat ch (slice0 (maxOldDeletesPerChannel (discord cfg)) old)
                    @ remain_lines (maxOldDeletesPerChannel (discord cfg)) cat ch old
                    @ [(INFO, Deleted cat (ch_name ch)
                                (d + length (filter (\<lambda>m. ch_delete ch m = None)
                                   (slice0 (maxOldDeletesPerChannel (discord cfg)) old))))])"
proof -
  let ?cfg0 = "case w_reload w of Some c \<Rightarrow> c | None \<Rightarrow> b_config b"
  let ?dry = "effective_dry opts ?cfg0"
  let ?ea = "case w_reload w of Some c \<Rightarrow> (b_fx b)\<lparr>clock := 0\<rparr>
              | None \<Rightarrow> say ERROR ConfigReloadFailed ((b_fx b)\<lparr>clock := 0\<rparr>)"
  let ?init = "start_state (tick (tick (say INFO (StartingCleanup ?dry) ?ea)))"
  let ?cats = "g_categoryChannelMap g"
  obtain st thrown where loop:
    "categoryLoop R cfg None ?dry (categoryFilter opts) (channelFilter opts) ?cats ?init
       = (st, thrown)"
    by (cases "categoryLoop R cfg None ?dry (categoryFilter opts) (channelFilter opts) ?cats ?init")
  note facts = categoryLoop_turns[OF assms(6) assms(7) assms(8) loop]
  have thrown: "thrown = None"
    using facts by simp
  have tp: "totalProcessed st = due_turns R cfg (categoryFilter opts) (channelFilter opts) ?cats"
    using facts[THEN conjunct2, THEN conjunct1] by (simp add: start_state_def)
  have te: "totalErrors st
            = failed_turns R cfg ?dry (categoryFilter opts) (channelFilter opts) ?cats"
    using facts[THEN conjunct2, THEN conjunct2, THEN conjunct1] by (simp add: start_state_def)
  note cats = facts[THEN conjunct2, THEN conjunct2, THEN conjunct2, THEN conjunct2]
  have out: "snd (runCleanup opts w b) =
      Completed \<lparr>rr_error = None, rr_totalProcessed = totalProcessed st,
                  rr_totalPurged = totalPurged st, rr_totalErrors = totalErrors st,
                  rr_dryRun = ?dry, rr_trigger = trigger_label opts,
                  rr_cancelled = Some False, rr_categories = categoryStats st\<rparr>"
    using assms(1-5) loop[unfolded thrown effective_dry_def]
    by (simp add: runCleanup_def Let_def cleanupCancelled_def effective_dry_def)
  have run: "\<exists>report. snd (runCleanup opts w b) = Completed report
            \<and> rr_totalProcessed report =
                due_turns R cfg (categoryFilter opts) (channelFilter opts) ?cats
            \<and> rr_totalErrors report =
                failed_turns R cfg ?dry (categoryFilter opts) (channelFilter opts) ?cats
            \<and> rr_cancelled report = Some False
            \<and> (\<forall>c chans. (c, chans) \<in> set ?cats
                   \<and> due R cfg (categoryFilter opts) c \<and> c \<noteq> ''__proto__'' \<longrightarrow>
                   map_of (rr_categories report) c
                     = Some (collectStats (category_turns R cfg ?dry (channelFilter opts) c chans)))"
    unfolding out using tp te cats by simp
  have cause: "\<forall>cancelAt dry cat dOld ch ret src e err.
            (cr_error (fst (cleanChannel cfg cancelAt dry cat dOld ch ret src e)) = Some err \<longleftrightarrow>
               snd (scanChannel cfg dOld ch ret e) = Inl err
             \<or> (\<not> dry
                \<and> (bulkDeletableOf (scanChannel cfg dOld ch ret e) \<noteq> []
                   \<or> oldDeletableOf (scanChannel cfg dOld ch ret e) \<noteq> [])
                \<and> snd (bulkPhase ch (bulkDeletableOf (scanChannel cfg dOld ch ret e)) 0 0 e)
                    = Inl err))
          \<and> (cr_error (fst (cleanChannel cfg cancelAt dry cat dOld ch ret src e)) = Some err \<longrightarrow>
               cleanChannel cfg cancelAt dry cat dOld ch ret src e
                 = (ErrorResult (ch_name ch) ret src err, 0, True,
                    say ERROR (ChannelFailed cat (ch_name ch) err)
                      (fst (scanAndDelete cfg cancelAt dry cat dOld ch ret e))))"
    using cleanChannel_failure_cause cleanChannel_error_record by blast
  have olds: "\<forall>cat dOld ch ret src e bulk old fetched seen d.
            snd (scanChannel cfg dOld ch ret e) = Inr (bulk, old, fetched, seen)
            \<and> (bulk \<noteq> [] \<or> old \<noteq> [])
            \<and> snd (bulkPhase ch bulk 0 0 e) = Inr d \<longrightarrow>
              fst (cleanChannel cfg None False cat dOld ch ret src e)
                = PurgedResult (ch_name ch) ret src
                    (Some (d + length (filter (\<lambda>m. ch_delete ch m = None)
                                         (slice0 (maxOldDeletesPerChannel (discord cfg)) old))))
            \<and> \<not> fst (snd (snd (cleanChannel cfg None False cat dOld ch ret src e)))
            \<and> calls (snd (snd (snd (cleanChannel cfg None False cat dOld ch ret src e))))
                = calls e @ batches bulk
                    @ map OldDelete (slice0 (maxOldDeletesPerChannel (discord cfg)) old)
            \<and> logs (snd (snd (snd (cleanChannel cfg None False cat dOld ch ret src e))))
                = logs e @ failure_lines cat ch (slice0 (maxOldDeletesPerChannel (discord cfg)) old)
                    @ remain_lines (maxOldDeletesPerChannel (discord cfg)) cat ch old
                    @ [(INFO, Deleted cat (ch_name ch)
                                (d + length (filter (\<lambda>m. ch_delete ch m = None)
                                   (slice0 (maxOldDeletesPerChannel (discord cfg)) old))))]"
    using cleanChannel_old_failures by blast
  from run cause olds show ?thesis
    by (intro conjI)
qed

text \<open>Three channels of the category \<open>ops\<close>: one whose fetch is refused, one with a
  message 20 days old that cannot be deleted, one with a message 10 days old.\<close>

definition alpha :: channel where
  "alpha = \<lparr>ch_name = ''alpha'', ch_now = scenario_now, ch_depth = 10,
             ch_fetch = (\<lambda>cursor limit. Inl ''Missing Access''),
             ch_bulkDelete = (\<lambda>b. Inr (length b)), ch_delete = (\<lambda>m. None)\<rparr>"

definition beta :: channel where
  "beta = \<lparr>ch_name = ''beta'', ch_now = scenario_now, ch_depth = 10,
            ch_fetch = listing [aged 1],
            ch_bulkDelete = (\<lambda>b. Inr (length b)),
            ch_delete = (\<lambda>m. Some ''Unknown Message'')\<rparr>"

definition gamma :: channel where
  "gamma = \<lparr>ch_name = ''gamma'', ch_now = scenario_now, ch_depth = 10,
             ch_fetch = listing [young 2],
             ch_bulkDelete = (\<lambda>b. Inr (length b)), ch_delete = (\<lambda>m. None)\<rparr>"

text \<open>
  C7 as stated fails for a delete error of the individual phase: a channel whose one
  message older than 14 days cannot be deleted is recorded without error, the run's
  error counter stays 0, and only a warning tells of the failure.
\<close>

theorem old_delete_failure_not_counted:
  "snd (runCleanup default_options (world_of example_config [(''ops'', [beta])]) idle_bot) =
     Completed
       \<lparr>rr_error = None, rr_totalProcessed = 1, rr_totalPurged = 0, rr_totalErrors = 0,
        rr_dryRun = False, rr_trigger = ''schedule'', rr_cancelled = Some False,
        rr_categories =
          [(''ops'', \<lparr>cs_processed = 1, cs_purged = 0, cs_errors = 0,
                      cs_channels = [PurgedResult ''beta'' (JNum 7) ''category'' (Some 0)]\<rparr>)]\<rparr>
   \<and> (WARN, DeleteFailed ''ops'' ''beta'' 1 ''Unknown Message'')
       \<in> set (logs (b_fx (fst (runCleanup default_options
                                 (world_of example_config [(''ops'', [beta])]) idle_bot))))
   \<and> calls (b_fx (fst (runCleanup default_options
                          (world_of example_config [(''ops'', [beta])]) idle_bot))) =
       [OldDelete (aged 1)]"
proof -
  have report: "snd (runCleanup default_options (world_of example_config [(''ops'', [beta])]) idle_bot) =
     Completed
       \<lparr>rr_error = None, rr_totalProcessed = 1, rr_totalPurged = 0, rr_totalErrors = 0,
        rr_dryRun = False, rr_trigger = ''schedule'', rr_cancelled = Some False,
        rr_categories =
          [(''ops'', \<lparr>cs_processed = 1, cs_purged = 0, cs_errors = 0,
                      cs_channels = [PurgedResult ''beta'' (JNum 7) ''category'' (Some 0)]\<rparr>)]\<rparr>"
    by code_simp
  have warned: "(WARN, DeleteFailed ''ops'' ''beta'' 1 ''Unknown Message'')
       \<in> set (logs (b_fx (fst (runCleanup default_options
                                 (world_of example_config [(''ops'', [beta])]) idle_bot))))"
    by code_simp
  have sent: "calls (b_fx (fst (runCleanup default_options
                          (world_of example_config [(''ops'', [beta])]) idle_bot))) =
       [OldDelete (aged 1)]"
    by code_simp
  from report warned sent show ?thesis
    by (intro conjI)
qed

text \<open>A run over the channels \<open>alpha\<close> and \<open>gamma\<close>: the refused fetch of \<open>alpha\<close> is
  recorded and counted, and \<open>gamma\<close> is cleaned after it.\<close>

theorem channel_failures_isolated_witness:
  "\<not> b_cleanupRunning idle_bot
   \<and> distinct (map fst [(''ops'', [alpha, gamma])])
   \<and> all_resolve pristine example_config None None [(''ops'', [alpha, gamma])]
   \<and> colour_usable example_config
   \<and> due pristine example_config None ''ops''
   \<and> category_turns pristine example_config False None ''ops'' [alpha, gamma]
       = [ErrorResult ''alpha'' (JNum 7) ''category'' ''Missing Access'',
          PurgedResult ''gamma'' (JNum 7) ''category'' (Some 1)]
   \<and> (\<exists>report. snd (runCleanup default_options
                        (world_of example_config [(''ops'', [alpha, gamma])]) idle_bot)
                   = Completed report
         \<and> rr_totalProcessed report = 2
         \<and> rr_totalErrors report = 1
         \<and> map_of (rr_categories report) ''ops''
             = Some (collectStats [ErrorResult ''alpha'' (JNum 7) ''category'' ''Missing Access'',
                                   PurgedResult ''gamma'' (JNum 7) ''category'' (Some 1)]))"
proof -
  let ?cats = "[(''ops'', [alpha, gamma])]"
  let ?w = "world_of example_config ?cats" and ?g = "guild_of ?cats"
  have h1: "\<not> b_cleanupRunning idle_bot"
    by (simp add: idle_bot_def)
  have h2: "w_guild ?w = Some ?g"
    by (simp add: world_of_def)
  have h3: "g_refresh ?g = None"
    by (simp add: guild_of_def)
  have h4: "g_discover ?g (b_realm idle_bot)
              (case w_reload ?w of Some c \<Rightarrow> c | None \<Rightarrow> b_config idle_bot)
              = Inr (pristine, example_config)"
    by (simp add: guild_of_def world_of_def idle_bot_def)
  have h5: "w_cancelAt ?w = None"
    by (simp add: world_of_def)
  have cats: "g_categoryChannelMap ?g = ?cats"
    by (simp add: guild_of_def)
  have h6: "distinct (map fst (g_categoryChannelMap ?g))"
    unfolding cats by simp
  have res: "all_resolve pristine example_config None None ?cats"
    by code_simp
  have h7: "all_resolve pristine example_config (categoryFilter default_options)
              (channelFilter default_options) (g_categoryChannelMap ?g)"
    unfolding cats using res by (simp add: default_options_def)
  have h8: "colour_usable example_config"
    by code_simp
  have dry: "effective_dry default_options
               (case w_reload ?w of Some c \<Rightarrow> c | None \<Rightarrow> b_config idle_bot) = False"
    by code_simp
  have filters: "categoryFilter default_options = None" "channelFilter default_options = None"
    by (simp_all add: default_options_def)
  have dueops: "due pristine example_config None ''ops''"
    by code_simp
  have due2: "due_turns pristine example_config None None ?cats = 2"
    by code_simp
  have turns: "category_turns pristine example_config False None ''ops'' [alpha, gamma]
       = [ErrorResult ''alpha'' (JNum 7) ''category'' ''Missing Access'',
          PurgedResult ''gamma'' (JNum 7) ''category'' (Some 1)]"
    by code_simp
  have failed1: "failed_turns pristine example_config False None None ?cats = 1"
    unfolding failed_turns.simps turns using dueops by (simp add: is_failure_def)
  note run = channel_failures_isolated [OF h1 h2 h3 h4 h5 h6 h7 h8, THEN conjunct1,
                                        unfolded cats dry filters due2 failed1]
  from run obtain report where
    r: "snd (runCleanup default_options ?w idle_bot) = Completed report"
       "rr_totalProcessed report = 2" "rr_totalErrors report = 1"
       "\<forall>c chans. (c, chans) \<in> set ?cats \<and> due pristine example_config None c
            \<and> c \<noteq> ''__proto__'' \<longrightarrow>
          map_of (rr_categories report) c
            = Some (collectStats (category_turns pristine example_config False None c chans))"
    by blast
  have "map_of (rr_categories report) ''ops''
          = Some (collectStats (category_turns pristine example_config False None ''ops''
                                  [alpha, gamma]))"
    using r(4) dueops by simp
  then have "map_of (rr_categories report) ''ops''
             = Some (collectStats [ErrorResult ''alpha'' (JNum 7) ''category'' ''Missing Access'',
                                   PurgedResult ''gamma'' (JNum 7) ''category'' (Some 1)])"
    unfolding turns .
  with r(1,2,3) have "\<exists>report. snd (runCleanup default_options ?w idle_bot) = Completed report
         \<and> rr_totalProcessed report = 2
         \<and> rr_totalErrors report = 1
         \<and> map_of (rr_categories report) ''ops''
             = Some (collectStats [ErrorResult ''alpha'' (JNum 7) ''category'' ''Missing Access'',
                                   PurgedResult ''gamma'' (JNum 7) ''category'' (Some 1)])"
    by blast
  with h1 res h8 dueops turns show ?thesis
    by simp
qed


section \<open>The full sync\<close>

text \<open>
  \<open>syncConfig\<close> reconciles the categories of the configuration with the categories and
  text channels found on the platform, counts the changes it makes, and writes the
  configuration file when it has counted at least one. Its log lines are left out,
  except that building two of them can throw.
\<close>

subsection \<open>The category a name stands for\<close>

text \<open>
  \<open>config.categories[catName]\<close> follows the prototype chain. What it finds is a value
  held by the configuration as an own property; or a value that the process has put on
  the object prototype under that name; or a built-in. The sync reads and writes
  properties of what it has found, so the model keeps where it was found.
\<close>

datatype holder =
    OwnCategory string
  | PrototypeProperty string

datatype category_ref =
    Held holder jsval
  | Is builtin

fun ref_of :: "category_ref \<Rightarrow> jsref" where
  "ref_of (Held h v) = Doc v"
| "ref_of (Is b) = Builtin b"

definition locate :: "realm \<Rightarrow> config \<Rightarrow> string \<Rightarrow> category_ref option" where
  "locate R cfg catName =
     (case map_of (categories cfg) catName of
        Some v \<Rightarrow> Some (Held (OwnCategory catName) v)
      | None \<Rightarrow>
          (case extra R ObjectPrototype catName of
             Some v \<Rightarrow> Some (Held (PrototypeProperty catName) v)
           | None \<Rightarrow>
               (if catName = ''__proto__'' then Some (Is ObjectPrototype)
                else if catName \<in> set object_members then Some (Is (ObjectMember catName))
                else None)))"

text \<open>
  The state of the process that the sync reads and writes: the realm, the configuration,
  and the lists that carry a property \<open>_channels\<close>. (When the value found for a category
  is a list, the sync puts the rebuilt channel list on that list as a property; a list of
  the document cannot show it, and it is not part of what is written to the file. It is
  kept aside, by where the list is held.) With them the count of changes and their
  details.
\<close>

datatype change =
    AddedCategory string "string list"
  | MigratedOverrides string
  | AddedChannels string "string list"
  | RemovedChannels string "jsval option list"
  | RemovedCategory string "jsval option list"

record sync_state =
  ss_realm :: realm
  ss_lists :: "(holder \<times> jsval) list"
  ss_config :: config
  ss_changes :: nat
  ss_details :: "change list"

text \<open>Setting a key of a map that keeps the order of insertion: an existing key keeps
  its place.\<close>

definition map_set :: "'k \<Rightarrow> 'v \<Rightarrow> ('k \<times> 'v) list \<Rightarrow> ('k \<times> 'v) list" where
  "map_set k v m =
     (if k \<in> fst ` set m then map (\<lambda>(k', v'). if k' = k then (k', v) else (k', v')) m
      else m @ [(k, v)])"

definition map_delete :: "'k \<Rightarrow> ('k \<times> 'v) list \<Rightarrow> ('k \<times> 'v) list" where
  "map_delete k m = filter (\<lambda>kv. fst kv \<noteq> k) m"

text \<open>The value at a holder, and its replacement.\<close>

fun held_value :: "sync_state \<Rightarrow> holder \<Rightarrow> jsval option" where
  "held_value st (OwnCategory c) = map_of (categories (ss_config st)) c"
| "held_value st (PrototypeProperty c) = extra (ss_realm st) ObjectPrototype c"

fun put_held :: "holder \<Rightarrow> jsval \<Rightarrow> sync_state \<Rightarrow> sync_state" where
  "put_held (OwnCategory c) v st =
     st\<lparr>ss_config := (ss_config st)\<lparr>categories := map_set c v (categories (ss_config st))\<rparr>\<rparr>"
| "put_held (PrototypeProperty c) v st =
     st\<lparr>ss_realm := map_set (ObjectPrototype, c) v (ss_realm st)\<rparr>"

text \<open>Reading a setting of the category found: for a list, the property \<open>_channels\<close>
  that the sync has put on it comes first.\<close>

fun sync_field :: "sync_state \<Rightarrow> category_ref \<Rightarrow> field \<Rightarrow> jsval option" where
  "sync_field st (Held h (JArr xs)) f =
     (case (if f = Channels then map_of (ss_lists st) h else None) of
        Some v \<Rightarrow> Some v
      | None \<Rightarrow> cat_field (ss_realm st) (Doc (JArr xs)) f)"
| "sync_field st (Held h v) f = cat_field (ss_realm st) (Doc v) f"
| "sync_field st (Is b) f = cat_field (ss_realm st) (Builtin b) f"

text \<open>
  \<open>delete cat.overrides\<close> removes an own property: of a mapping, or of a built-in (what
  the process has put on it). It leaves an inherited property where it is.
\<close>

fun delete_overrides :: "category_ref \<Rightarrow> sync_state \<Rightarrow> sync_state" where
  "delete_overrides (Held h v) st =
     (case held_value st h of
        Some (JObj kvs) \<Rightarrow> put_held h (JObj (map_delete ''overrides'' kvs)) st
      | _ \<Rightarrow> st)"
| "delete_overrides (Is b) st =
     st\<lparr>ss_realm := map_delete (b, ''overrides'') (ss_realm st)\<rparr>"

text \<open>
  \<open>cat._channels = newList\<close> creates or replaces an own property: of a mapping; of a
  list (kept aside); of a built-in (in the realm: a list put on the object prototype
  replaces the one that was there, with what it carried). On a boolean, a number or a
  string the assignment is dropped.
\<close>

fun write_channels :: "category_ref \<Rightarrow> jsval list \<Rightarrow> sync_state \<Rightarrow> sync_state" where
  "write_channels (Held h v) newList st =
     (case held_value st h of
        Some (JObj kvs) \<Rightarrow> put_held h (JObj (assign ''_channels'' (JArr newList) kvs)) st
      | Some (JArr xs) \<Rightarrow> st\<lparr>ss_lists := map_set h (JArr newList) (ss_lists st)\<rparr>
      | _ \<Rightarrow> st)"
| "write_channels (Is b) newList st =
     st\<lparr>ss_realm := map_set (b, ''_channels'') (JArr newList) (ss_realm st),
        ss_lists := (if b = ObjectPrototype
                     then map_delete (PrototypeProperty ''_channels'') (ss_lists st)
                     else ss_lists st)\<rparr>"


subsection \<open>The channel list of a category\<close>

text \<open>The first own property of a non-null value of type object, in the order of
  enumeration: \<open>Object.keys(entry)[0]\<close> and \<open>entry[name]\<close> for that name.\<close>

fun first_prop :: "jsval \<Rightarrow> (string \<times> jsval) option" where
  "first_prop (JObj kvs) = (case own_order kvs of [] \<Rightarrow> None | kv # rest \<Rightarrow> Some kv)"
| "first_prop (JArr (x # xs)) = Some (''0'', x)"
| "first_prop v = None"

text \<open>
  The map of the existing inline overrides, built from the channel list: the entries that
  are objects, by their first key. An entry without a first key puts the key
  \<open>undefined\<close> into the map; the flag records that.
\<close>

fun overridesOfEntries ::
  "jsval list \<Rightarrow> (string \<times> jsval) list \<times> bool \<Rightarrow> (string \<times> jsval) list \<times> bool" where
  "overridesOfEntries [] acc = acc"
| "overridesOfEntries (e # es) (named, unnamed) =
     (if typeof e = ''object'' \<and> e \<noteq> JNull
      then (case first_prop e of
              Some (k, v) \<Rightarrow> overridesOfEntries es (map_set k v named, unnamed)
            | None \<Rightarrow> overridesOfEntries es (named, True))
      else overridesOfEntries es (named, unnamed))"

text \<open>\<open>Object.entries\<close> of a truthy value of the document.\<close>

fun entries_of :: "jsval \<Rightarrow> (string \<times> jsval) list" where
  "entries_of (JObj kvs) = own_order kvs"
| "entries_of (JArr xs) = zip (map show_nat [0..<length xs]) xs"
| "entries_of (JStr s) = zip (map show_nat [0..<length s]) (map (\<lambda>c. JStr [c]) s)"
| "entries_of v = []"

text \<open>The deprecated section \<open>overrides\<close> merged into the map; keys that start with an
  underscore are left out.\<close>

fun mergeOverrides ::
  "(string \<times> jsval) list \<Rightarrow> (string \<times> jsval) list \<Rightarrow> (string \<times> jsval) list" where
  "mergeOverrides [] named = named"
| "mergeOverrides ((chanName, v) # rest) named =
     (if take 1 chanName = ''_'' then mergeOverrides rest named
      else mergeOverrides rest (map_set chanName v named))"

text \<open>
  The names a channel list holds, \<open>(cat._channels || []).map(ch => typeof ch === 'object'
  ? Object.keys(ch)[0] : ch)\<close>: for an entry that is an object its first key (undefined
  when it has none), for any other entry the entry itself. The expression throws on a
  null entry, and on a list that is truthy without being an array.
\<close>

definition keys_error :: string where
  "keys_error = ''Cannot convert undefined or null to object''"

definition map_error :: string where
  "map_error = ''(cat._channels || []).map is not a function''"

definition null_category_error :: string where
  "null_category_error = ''Cannot read properties of null (reading _channels)''"

definition missing_category_error :: string where
  "missing_category_error = ''Cannot read properties of undefined (reading _channels)''"

fun namesOfEntries :: "jsval list \<Rightarrow> string + jsval option list" where
  "namesOfEntries [] = Inr []"
| "namesOfEntries (e # es) =
     (if e = JNull then Inl keys_error
      else (case namesOfEntries es of
              Inl err \<Rightarrow> Inl err
            | Inr names \<Rightarrow>
                Inr ((if typeof e = ''object''
                      then map_option (\<lambda>p. JStr (fst p)) (first_prop e)
                      else Some e) # names)))"

definition channelNamesOf :: "jsval option \<Rightarrow> string + jsval option list" where
  "channelNamesOf chs =
     (case chs of
        None \<Rightarrow> Inr []
      | Some (JArr es) \<Rightarrow> namesOfEntries es
      | Some v \<Rightarrow> (if truthy v then Inl map_error else Inr []))"

text \<open>The elements of a set built from a list, in the order of first insertion.\<close>

fun dedupe :: "'a list \<Rightarrow> 'a list" where
  "dedupe [] = []"
| "dedupe (x # xs) = x # dedupe (filter (\<lambda>y. y \<noteq> x) xs)"

text \<open>
  What \<open>JSON.stringify\<close> shows of a value of the document: NaN and the infinities are
  written as null, and the properties of a mapping in the order of enumeration. Two
  values have the same JSON text exactly when they agree in this.
\<close>

fun jsonView :: "jsval \<Rightarrow> jsval" where
  "jsonView JNaN = JNull"
| "jsonView (JInf b) = JNull"
| "jsonView (JArr xs) = JArr (map jsonView xs)"
| "jsonView (JObj kvs) = JObj (own_order (map (\<lambda>kv. (fst kv, jsonView (snd kv))) kvs))"
| "jsonView v = v"

text \<open>\<open>cat._channels || []\<close>, once the names have been read from it.\<close>

definition currentList :: "jsval option \<Rightarrow> jsval list" where
  "currentList chs = (case chs of Some (JArr es) \<Rightarrow> es | _ \<Rightarrow> [])"


subsection \<open>The two loops\<close>

text \<open>
  The sync of a name that stands for something truthy (the \<open>else\<close> branch). The
  settings are read from the category as it is found; the section \<open>overrides\<close> is then
  deleted and the channel list replaced. The last log line shows the category's default
  (the global default when that is undefined or null) in a template literal, which
  throws when it has no string.
\<close>

definition syncExisting ::
  "string \<Rightarrow> string list \<Rightarrow> category_ref \<Rightarrow> sync_state \<Rightarrow> sync_state \<times> string option" where
  "syncExisting catName sortedChannels cat st =
     (let chs = sync_field st cat Channels;
          ov = sync_field st cat Overrides;
          dflt = sync_field st cat Default;
          (named0, unnamed) = (case chs of
                                 Some (JArr es) \<Rightarrow> overridesOfEntries es ([], False)
                               | _ \<Rightarrow> ([], False));
          migrate = (case ov of Some v \<Rightarrow> truthy v | None \<Rightarrow> False);
          named = (if migrate
                   then mergeOverrides (case ov of Some v \<Rightarrow> entries_of v | None \<Rightarrow> []) named0
                   else named0);
          st1 = (if migrate
                 then (delete_overrides cat st)
                        \<lparr>ss_changes := ss_changes st + 1,
                         ss_details := ss_details st @ [MigratedOverrides catName]\<rparr>
                 else st)
      in case channelNamesOf chs of
           Inl err \<Rightarrow> (st1, Some err)
         | Inr existingNames \<Rightarrow>
             (let newList = map (\<lambda>name. case map_of named name of
                                            Some v \<Rightarrow> JObj [(name, v)]
                                          | None \<Rightarrow> JStr name) sortedChannels;
                  addedChannels =
                    filter (\<lambda>name. Some (JStr name) \<notin> set existingNames) sortedChannels;
                  removedChannels =
                    filter (\<lambda>x. x \<notin> (\<lambda>n. Some (JStr n)) ` set sortedChannels)
                      (dedupe existingNames);
                  removedOverrides =
                    length (filter (\<lambda>kv. fst kv \<notin> set sortedChannels) named)
                    + (if unnamed then 1 else 0);
                  listChanged =
                    (jsonView (JArr (currentList chs)) \<noteq> jsonView (JArr newList));
                  st2 = st1\<lparr>ss_changes := ss_changes st1 + removedOverrides,
                            ss_details := ss_details st1
                              @ (if addedChannels \<noteq> []
                                 then [AddedChannels catName addedChannels] else [])
                              @ (if removedChannels \<noteq> []
                                 then [RemovedChannels catName removedChannels] else [])\<rparr>;
                  st3 = (if listChanged
                         then (write_channels cat newList st2)
                                \<lparr>ss_changes := ss_changes st2 + 1\<rparr>
                         else st2);
                  shown = (case dflt of
                             None \<Rightarrow> globalDefault (ss_config st)
                           | Some JNull \<Rightarrow> globalDefault (ss_config st)
                           | Some v \<Rightarrow> v)
              in (st3, if unprintable shown then Some type_error else None)))"

text \<open>The map from category name to channel names, built from the text channels found
  on the platform (each with the name of its parent, when the parent is a category).\<close>

fun addDiscovered ::
  "string \<Rightarrow> string \<Rightarrow> (string \<times> string list) list \<Rightarrow> (string \<times> string list) list" where
  "addDiscovered c n [] = [(c, [n])]"
| "addDiscovered c n ((c', ns) # rest) =
     (if c' = c then (c', ns @ [n]) # rest else (c', ns) # addDiscovered c n rest)"

fun discoveredMapOf ::
  "(string option \<times> string) list \<Rightarrow> (string \<times> string list) list
   \<Rightarrow> (string \<times> string list) list" where
  "discoveredMapOf [] m = m"
| "discoveredMapOf ((None, n) # rest) m = discoveredMapOf rest m"
| "discoveredMapOf ((Some c, n) # rest) m = discoveredMapOf rest (addDiscovered c n m)"

text \<open>
  A new category (the \<open>if\<close> branch): added as disabled, with the global default and
  the sorted channel list. The log line that follows shows the global default in a
  template literal, which throws when it has no string.
\<close>

definition addCategory ::
  "string \<Rightarrow> string list \<Rightarrow> sync_state \<Rightarrow> sync_state \<times> string option" where
  "addCategory catName sortedChannels st =
     (let cfg = ss_config st
      in (st\<lparr>ss_config := cfg\<lparr>categories :=
                  assign catName
                    (JObj [(''enabled'', JBool False),
                           (''default'', globalDefault cfg),
                           (''_channels'', JArr (map JStr sortedChannels))])
                    (categories cfg)\<rparr>,
             ss_changes := ss_changes st + 1,
             ss_details := ss_details st @ [AddedCategory catName sortedChannels]\<rparr>,
          if unprintable (globalDefault cfg) then Some type_error else None))"

text \<open>
  First loop, over the categories of the platform, each with its channel names sorted: a
  name that stands for nothing, or for something falsy, is added as a new category; any
  other is reconciled.
\<close>

fun syncDiscovered ::
  "(string \<times> string list) list \<Rightarrow> sync_state \<Rightarrow> sync_state \<times> string option" where
  "syncDiscovered [] st = (st, None)"
| "syncDiscovered ((catName, chans) # rest) st =
     (case (case locate (ss_realm st) (ss_config st) catName of
              None \<Rightarrow> addCategory catName (sort chans) st
            | Some cat \<Rightarrow>
                (if truthy_ref (ref_of cat) then syncExisting catName (sort chans) cat st
                 else addCategory catName (sort chans) st)) of
        (st1, Some err) \<Rightarrow> (st1, Some err)
      | (st1, None) \<Rightarrow> syncDiscovered rest st1)"

text \<open>
  Second loop, over the own keys the configuration has when the loop begins: the
  categories that are not on the platform are removed. Reading the channel list of a
  category that is null throws.
\<close>

fun removeMissing ::
  "string list \<Rightarrow> string list \<Rightarrow> sync_state \<Rightarrow> sync_state \<times> string option" where
  "removeMissing discovered [] st = (st, None)"
| "removeMissing discovered (catName # rest) st =
     (if catName \<in> set discovered then removeMissing discovered rest st
      else (case map_of (categories (ss_config st)) catName of
              None \<Rightarrow> (st, Some missing_category_error)
            | Some JNull \<Rightarrow> (st, Some null_category_error)
            | Some v \<Rightarrow>
                (case channelNamesOf (sync_field st (Held (OwnCategory catName) v) Channels) of
                   Inl err \<Rightarrow> (st, Some err)
                 | Inr removedChannels \<Rightarrow>
                     removeMissing discovered rest
                       (st\<lparr>ss_config := (ss_config st)
                               \<lparr>categories := map_delete catName (categories (ss_config st))\<rparr>,
                           ss_lists := map_delete (OwnCategory catName) (ss_lists st),
                           ss_changes := ss_changes st + 1,
                           ss_details := ss_details st
                               @ [RemovedCategory catName removedChannels]\<rparr>))))"


subsection \<open>\<open>syncConfig\<close>\<close>

text \<open>
  The guild as the sync finds it: whether refreshing its channels throws, and its text
  channels that have a parent. What the process holds: the realm, the lists that carry
  a channel list, the configuration. The outcome of a sync: it throws, or it returns its
  counts and the details of the changes, having written the configuration to the file
  or not. (Writing the file is taken to succeed.)
\<close>

record sync_guild =
  sg_refresh :: "string option"
  sg_textChannels :: "(string option \<times> string) list"

record sync_report =
  sr_categories :: nat
  sr_channels :: nat
  sr_changes :: nat
  sr_details :: "change list"

datatype sync_outcome =
    SyncThrew string
  | SyncDone sync_report "config option"

type_synonym held = "realm \<times> (holder \<times> jsval) list \<times> config"

definition held_of :: "sync_state \<Rightarrow> held" where
  "held_of st = (ss_realm st, ss_lists st, ss_config st)"

definition syncConfig :: "sync_guild option \<Rightarrow> held \<Rightarrow> held \<times> sync_outcome" where
  "syncConfig guild p =
     (case guild of
        None \<Rightarrow> (p, SyncThrew ''Guild not found'')
      | Some g \<Rightarrow>
          (case sg_refresh g of
             Some err \<Rightarrow> (p, SyncThrew err)
           | None \<Rightarrow>
               (let discoveredMap = discoveredMapOf (sg_textChannels g) []
                in case syncDiscovered discoveredMap
                          \<lparr>ss_realm = fst p, ss_lists = fst (snd p), ss_config = snd (snd p),
                           ss_changes = 0, ss_details = []\<rparr> of
                     (st1, Some err) \<Rightarrow> (held_of st1, SyncThrew err)
                   | (st1, None) \<Rightarrow>
                       (case removeMissing (map fst discoveredMap)
                               (map fst (own_order (categories (ss_config st1)))) st1 of
                          (st2, Some err) \<Rightarrow> (held_of st2, SyncThrew err)
                        | (st2, None) \<Rightarrow>
                            (held_of st2,
                             SyncDone \<lparr>sr_categories = length discoveredMap,
                                       sr_channels = length (sg_textChannels g),
                                       sr_changes = ss_changes st2,
                                       sr_details = ss_details st2\<rparr>
                                      (if ss_changes st2 > 0
                                       then Some (ss_config st2) else None))))))"

text \<open>What the sync finds under a name is what the cleanup finds under it.\<close>

lemma locate_category_of: "map_option ref_of (locate R cfg c) = category_of R cfg c"
  by (simp add: locate_def category_of_def from_object_prototype_def split: option.splits)


subsection \<open>A category of the platform named like a member of every object\<close>

text \<open>
  A configuration with one category, \<open>logs\<close>, whose channel list is in step with the
  platform; on the platform a second category, named \<open>constructor\<close>, with one text
  channel.
\<close>

definition sync_config :: config where
  "sync_config =
     \<lparr>globalDefault = JNum 7, dryRun = False, discord = example_discord,
      cleanupColor = JStr ''#238636'',
      categories =
        [(''logs'', JObj [(''enabled'', JBool True), (''default'', JNum 30),
                          (''_channels'', JArr [JStr ''alerts'', JObj [(''general'', JNum 3)]])])]\<rparr>"

definition platform :: sync_guild where
  "platform = \<lparr>sg_refresh = None,
     sg_textChannels = [(Some ''logs'', ''general''), (Some ''constructor'', ''lobby''),
                        (Some ''logs'', ''alerts'')]\<rparr>"

text \<open>A configuration in which the value of the category \<open>logs\<close> is a number, and a
  platform with that category alone.\<close>

definition scalar_config :: config where
  "scalar_config = sync_config\<lparr>categories := [(''logs'', JNum 5)]\<rparr>"

definition logs_only :: sync_guild where
  "logs_only = \<lparr>sg_refresh = None, sg_textChannels = [(Some ''logs'', ''general'')]\<rparr>"

text \<open>
  C9 fails on the code. A sync in a process that has just started (\<open>--sync\<close>), with the
  configuration above: the name \<open>constructor\<close> is not a category of the configuration,
  but \<open>config.categories['constructor']\<close> finds the constructor that every object
  inherits, and takes it for an existing category. The sync puts the channel list on
  that built-in, counts one change, and writes the file, which holds the configuration
  it started from. The next \<open>--sync\<close> is a new process that loads this file: the same
  computation, so it counts one change and writes the file again, with nothing changed
  on the platform. (A second sync in the same process finds the channel list on the
  built-in and counts no change.)

  When the value of a category is a number, the assignment of the channel list is
  dropped while the change is counted: every sync writes the file, also a second sync
  of the same process.
\<close>

theorem sync_inherited_category_rewrites_file:
  "syncConfig (Some platform) (pristine, [], sync_config) =
     (([((ObjectMember ''constructor'', ''_channels''), JArr [JStr ''lobby''])], [], sync_config),
      SyncDone \<lparr>sr_categories = 2, sr_channels = 3, sr_changes = 1,
                sr_details = [AddedChannels ''constructor'' [''lobby'']]\<rparr>
               (Some sync_config))
   \<and> syncConfig (Some platform)
        ([((ObjectMember ''constructor'', ''_channels''), JArr [JStr ''lobby''])], [], sync_config) =
     (([((ObjectMember ''constructor'', ''_channels''), JArr [JStr ''lobby''])], [], sync_config),
      SyncDone \<lparr>sr_categories = 2, sr_channels = 3, sr_changes = 0, sr_details = []\<rparr> None)
   \<and> syncConfig (Some logs_only) (pristine, [], scalar_config) =
     ((pristine, [], scalar_config),
      SyncDone \<lparr>sr_categories = 1, sr_channels = 1, sr_changes = 1,
                sr_details = [AddedChannels ''logs'' [''general'']]\<rparr>
               (Some scalar_config))
   \<and> syncConfig (Some logs_only) (fst (syncConfig (Some logs_only) (pristine, [], scalar_config))) =
     ((pristine, [], scalar_config),
      SyncDone \<lparr>sr_categories = 1, sr_channels = 1, sr_changes = 1,
                sr_details = [AddedChannels ''logs'' [''general'']]\<rparr>
               (Some scalar_config))"
proof -
  have first: "syncConfig (Some platform) (pristine, [], sync_config) =
     (([((ObjectMember ''constructor'', ''_channels''), JArr [JStr ''lobby''])], [], sync_config),
      SyncDone \<lparr>sr_categories = 2, sr_channels = 3, sr_changes = 1,
                sr_details = [AddedChannels ''constructor'' [''lobby'']]\<rparr>
               (Some sync_config))"
    by code_simp
  have same_process: "syncConfig (Some platform)
        ([((ObjectMember ''constructor'', ''_channels''), JArr [JStr ''lobby''])], [], sync_config) =
     (([((ObjectMember ''constructor'', ''_channels''), JArr [JStr ''lobby''])], [], sync_config),
      SyncDone \<lparr>sr_categories = 2, sr_channels = 3, sr_changes = 0, sr_details = []\<rparr> None)"
    by code_simp
  have scalar: "syncConfig (Some logs_only) (pristine, [], scalar_config) =
     ((pristine, [], scalar_config),
      SyncDone \<lparr>sr_categories = 1, sr_channels = 1, sr_changes = 1,
                sr_details = [AddedChannels ''logs'' [''general'']]\<rparr>
               (Some scalar_config))"
    by code_simp
  have again: "syncConfig (Some logs_only) (fst (syncConfig (Some logs_only) (pristine, [], scalar_config))) =
     ((pristine, [], scalar_config),
      SyncDone \<lparr>sr_categories = 1, sr_channels = 1, sr_changes = 1,
                sr_details = [AddedChannels ''logs'' [''general'']]\<rparr>
               (Some scalar_config))"
    by (simp only: scalar fst_conv)
  from first same_process scalar again show ?thesis
    by (intro conjI)
qed

end
